theory Spec2Isabelle
  imports Complex_Main "HOL-Library.AList"
begin

section \<open>Common Python notions\<close>

text \<open>
  The Python exceptions that the modelled code paths can raise.  \<open>ConfigurationError\<close>
  is the error name used by the specification; the sources define no such class and no
  path of theirs raises it.  Where the sources or their libraries reject an invalid option
  they raise \<open>ValueError\<close> (line 177 of \<open>main_p8020_EXT.py\<close> for the dataset selector,
  \<open>KFold\<close>, \<open>Pool\<close>, \<open>SGD\<close> and \<open>DataLoader\<close> for their parameters).
\<close>

datatype error =
    ValueError
  | IndexError
  | KeyError
  | ZeroDivisionError
  | UnboundLocalError
  | AttributeError
  | RuntimeError
  | ConfigurationError

text \<open>
  Python's \<open>max(xs)\<close> on a list: \<open>ValueError\<close> on the empty list, otherwise the
  first maximal element (a later element replaces the running maximum only when it is
  strictly greater).
\<close>

fun py_max :: "'a::linorder list \<Rightarrow> error + 'a" where
  "py_max [] = Inl ValueError"
| "py_max (x # xs) = Inr (foldl (\<lambda>m y. if m < y then y else m) x xs)"

text \<open>
  Python's \<open>xs.index(v)\<close>: the first position holding \<open>v\<close>, \<open>ValueError\<close> when
  there is none.
\<close>

fun py_index :: "'a list \<Rightarrow> 'a \<Rightarrow> error + nat" where
  "py_index [] v = Inl ValueError"
| "py_index (x # xs) v =
     (if x = v then Inr 0
      else case py_index xs v of Inl e \<Rightarrow> Inl e | Inr i \<Rightarrow> Inr (Suc i))"

text \<open>
  \<open>numpy.array_split(ary, n)\<close> along the first axis: \<open>ValueError\<close> unless
  \<open>n > 0\<close>; otherwise \<open>n\<close> consecutive slices, the first \<open>len(ary) mod n\<close> of
  length \<open>len(ary) div n + 1\<close> and the others of length \<open>len(ary) div n\<close>.
\<close>

fun chunks :: "nat list \<Rightarrow> 'a list \<Rightarrow> 'a list list" where
  "chunks [] xs = []"
| "chunks (s # ss) xs = take s xs # chunks ss (drop s xs)"

definition section_sizes :: "nat \<Rightarrow> nat \<Rightarrow> nat list" where
  "section_sizes Ntotal Nsections =
     replicate (Ntotal mod Nsections) (Ntotal div Nsections + 1) @
     replicate (Nsections - Ntotal mod Nsections) (Ntotal div Nsections)"

definition array_split :: "'a list \<Rightarrow> int \<Rightarrow> error + 'a list list" where
  "array_split ary n =
     (if n \<le> 0 then Inl ValueError
      else Inr (chunks (section_sizes (length ary) (nat n)) ary))"


section \<open>MASModelCNN.py: the simulated multi-agent model\<close>

subsection \<open>Tensors and state dictionaries\<close>

text \<open>
  A tensor is the list of its entries (flattened); entries are rationals, the exact
  values that floating point approximates.  A state dictionary is an ordered dictionary
  from parameter names to tensors, kept as an association list with distinct keys.
\<close>

type_synonym tensor = "rat list"
type_synonym state_dict = "(string \<times> tensor) list"

definition zeros_like :: "tensor \<Rightarrow> tensor" where
  "zeros_like v = map (\<lambda>_. 0) v"

text \<open>
  \<open>a += b\<close> on tensors.  All agents share one architecture, so the shapes agree; a
  mismatch of sizes is torch's \<open>RuntimeError\<close> (broadcasting is not modelled).
\<close>

definition tensor_iadd :: "tensor \<Rightarrow> tensor \<Rightarrow> error + tensor" where
  "tensor_iadd a b =
     (if length a = length b then Inr (map2 (+) a b) else Inl RuntimeError)"

definition tensor_idiv :: "tensor \<Rightarrow> nat \<Rightarrow> tensor" where
  "tensor_idiv a n = map (\<lambda>x. x / of_nat n) a"

text \<open>
  \<open>module.load_state_dict(g)\<close> with the default \<open>strict=True\<close>: the keys of
  \<open>g\<close> must be those of the module and each tensor must have the module's size,
  otherwise \<open>RuntimeError\<close>.  The values are copied into the module's own parameters,
  so the module keeps its key order.
\<close>

definition load_state_dict :: "state_dict \<Rightarrow> state_dict \<Rightarrow> error + state_dict" where
  "load_state_dict own g =
     (if set (map fst own) = set (map fst g) \<and>
         (\<forall>(k, v) \<in> set own. map_option length (map_of g k) = Some (length v))
      then Inr (map (\<lambda>(k, v). (k, the (map_of g k))) own)
      else Inl RuntimeError)"

subsection \<open>Agents\<close>

text \<open>
  The class \<open>ProcessorAgent\<close> is not among the sources.  An agent is the record of the
  attributes that \<open>ParallelizationModel\<close> reads and writes; \<open>neural_net_model\<close> is
  \<open>None\<close> or the state dictionary of the agent's network.  The constructor and the
  agents' training step are parameters of the functions below.
\<close>

record agent =
  unique_id :: nat
  neural_net_model :: "state_dict option"
  fold_loss :: rat
  processing_time :: rat
  correct_classifications :: int
  total_examples_processed :: int

subsection \<open>\<open>_split_data_and_create_agents\<close>\<close>

text \<open>
  \<open>mk i X y\<close> stands for \<open>ProcessorAgent(i, self, X, y, X_test, y_test, device, args)\<close>.
  The result is \<open>self.schedule.agents\<close>.
\<close>

definition split_data_and_create_agents ::
  "(nat \<Rightarrow> 'x list \<Rightarrow> 'y list \<Rightarrow> 'a) \<Rightarrow> int \<Rightarrow> 'x list \<Rightarrow> 'y list \<Rightarrow> error + 'a list" where
  "split_data_and_create_agents mk num_processors X_train y_train =
     (if num_processors = 1 then Inr [mk 0 X_train y_train]
      else case array_split X_train num_processors of
             Inl e \<Rightarrow> Inl e
           | Inr split_X_train \<Rightarrow>
               (case array_split y_train num_processors of
                  Inl e \<Rightarrow> Inl e
                | Inr split_y_train \<Rightarrow>
                    Inr (map (\<lambda>i. mk i (split_X_train ! i) (split_y_train ! i))
                           [0..<nat num_processors])))"

subsection \<open>\<open>synchronize_weights\<close>\<close>

text \<open>The inner loop \<open>for k, v in state_dict.items(): global_weights[k] += v\<close>.\<close>

fun accumulate :: "state_dict \<Rightarrow> state_dict \<Rightarrow> error + state_dict" where
  "accumulate g [] = Inr g"
| "accumulate g ((k, v) # kvs) =
     (case map_of g k of
        None \<Rightarrow> Inl KeyError
      | Some t \<Rightarrow>
          (case tensor_iadd t v of
             Inl e \<Rightarrow> Inl e
           | Inr t' \<Rightarrow> accumulate (AList.update k t' g) kvs))"

text \<open>The first loop over the agents: agents without a network are skipped.\<close>

fun collect_weights :: "state_dict \<Rightarrow> agent list \<Rightarrow> error + state_dict" where
  "collect_weights g [] = Inr g"
| "collect_weights g (a # as) =
     (case neural_net_model a of
        None \<Rightarrow> collect_weights g as
      | Some sd \<Rightarrow>
          (case accumulate g sd of
             Inl e \<Rightarrow> Inl e
           | Inr g' \<Rightarrow> collect_weights g' as))"

text \<open>
  The last loop: every agent with a network loads the averaged weights.  An exception
  leaves the agents already visited updated and the others as they were.
\<close>

fun load_all :: "state_dict \<Rightarrow> agent list \<Rightarrow> agent list \<times> error option" where
  "load_all g [] = ([], None)"
| "load_all g (a # as) =
     (case neural_net_model a of
        None \<Rightarrow> (case load_all g as of (as', r) \<Rightarrow> (a # as', r))
      | Some sd \<Rightarrow>
          (case load_state_dict sd g of
             Inl e \<Rightarrow> (a # as, Some e)
           | Inr sd' \<Rightarrow>
               (case load_all g as of
                  (as', r) \<Rightarrow> (a\<lparr>neural_net_model := Some sd'\<rparr> # as', r))))"

text \<open>
  \<open>synchronize_weights(model_state_dict)\<close> acts on the agents only (it returns
  nothing): the result is the agents after the call and the exception raised, if any.
  With no agent at all torch's division by \<open>num_agents = 0\<close> yields tensors that no
  agent loads, so the value of the quotient is not observable there.
\<close>

definition global_weights_of :: "state_dict \<Rightarrow> agent list \<Rightarrow> error + state_dict" where
  "global_weights_of model_state_dict ags =
     (case collect_weights (map (\<lambda>(k, v). (k, zeros_like v)) model_state_dict) ags of
        Inl e \<Rightarrow> Inl e
      | Inr summed \<Rightarrow> Inr (map (\<lambda>(k, t). (k, tensor_idiv t (length ags))) summed))"

definition synchronize_weights ::
  "state_dict option \<Rightarrow> agent list \<Rightarrow> agent list \<times> error option" where
  "synchronize_weights model_state_dict ags =
     (case model_state_dict of
        None \<Rightarrow> (ags, None)
      | Some seed \<Rightarrow>
          (case global_weights_of seed ags of
             Inl e \<Rightarrow> (ags, Some e)
           | Inr global_weights \<Rightarrow> load_all global_weights ags))"

subsection \<open>\<open>report_testing_accuracy\<close> and \<open>step\<close>\<close>

text \<open>
  \<open>report_testing_accuracy\<close> synchronises from the first agent's weights and runs the
  first agent's network on the test set.  The inference itself is the parameter
  \<open>infer\<close>, from the network's weights to the testing accuracy or an exception.  The
  result is the agents after the call, the arguments of the calls of
  \<open>synchronize_weights\<close> that were made, and the testing accuracy or the exception.
\<close>

definition report_testing_accuracy ::
  "(state_dict \<Rightarrow> error + rat) \<Rightarrow> agent list
     \<Rightarrow> agent list \<times> state_dict option list \<times> (error + rat)" where
  "report_testing_accuracy infer ags =
     (case ags of
        [] \<Rightarrow> (ags, [], Inl IndexError)
      | a0 # _ \<Rightarrow>
          (case neural_net_model a0 of
             None \<Rightarrow> (ags, [], Inl AttributeError)
           | Some seed \<Rightarrow>
               (case synchronize_weights (Some seed) ags of
                  (ags', Some e) \<Rightarrow> (ags', [Some seed], Inl e)
                | (ags', None) \<Rightarrow>
                    (case ags' of
                       [] \<Rightarrow> (ags', [Some seed], Inl IndexError)
                     | t # _ \<Rightarrow>
                         (case neural_net_model t of
                            None \<Rightarrow> (ags', [Some seed], Inl AttributeError)
                          | Some test_model \<Rightarrow> (ags', [Some seed], infer test_model))))))"

text \<open>The figures that \<open>step\<close> prints.\<close>

record step_report =
  cumulative_time :: rat
  average_time_per_node :: rat
  total_correct :: int
  total_processed :: int
  final_accuracy :: rat

text \<open>
  Lines 62 to 79 of \<open>step\<close>.  \<open>average_loss\<close> is computed (its division raises on an
  empty agent list) but never printed.
\<close>

definition aggregate :: "agent list \<Rightarrow> error + step_report" where
  "aggregate ags =
     (let losses = map fold_loss ags;
          processing_times = map processing_time ags;
          correct = map correct_classifications ags;
          processed = map total_examples_processed ags
      in if length losses = 0 then Inl ZeroDivisionError
         else let average_loss = sum_list losses / of_nat (length losses);
                  cumulative = sum_list processing_times
              in if length processing_times = 0 then Inl ZeroDivisionError
                 else if sum_list processed = 0 then Inl ZeroDivisionError
                 else Inr \<lparr>cumulative_time = cumulative,
                          average_time_per_node = cumulative / of_nat (length processing_times),
                          total_correct = sum_list correct,
                          total_processed = sum_list processed,
                          final_accuracy =
                            of_int (sum_list correct) / of_int (sum_list processed) * 100\<rparr>)"

text \<open>
  What one \<open>step\<close> leaves behind besides the agents: the report, if lines 77 to 79
  printed it; the arguments of the calls of \<open>synchronize_weights\<close>, in order (\<open>None\<close>
  for a call without a state dictionary); and the exception, if the step raised one.
\<close>

record step_outcome =
  printed :: "step_report option"
  sync_calls :: "state_dict option list"
  raised :: "error option"

text \<open>
  \<open>step\<close>: \<open>schedule_step\<close> stands for \<open>self.schedule.step()\<close>, the training step of
  every agent, taken to return normally.  The call \<open>self.synchronize_weights()\<close> of
  line 60, made for more than one processor, passes no state dictionary.  The report is
  printed before \<open>report_testing_accuracy\<close> is called, whatever that call does.  The
  result is the agents after the step and the outcome.
\<close>

definition step ::
  "(agent list \<Rightarrow> agent list) \<Rightarrow> (state_dict \<Rightarrow> error + rat) \<Rightarrow> int \<Rightarrow> agent list
     \<Rightarrow> agent list \<times> step_outcome" where
  "step schedule_step infer num_processors ags0 =
     (let ags1 = schedule_step ags0;
          (ags2, r, calls) =
             (if num_processors > 1
              then (case synchronize_weights None ags1 of (ags, r) \<Rightarrow> (ags, r, [None]))
              else (ags1, None, []))
      in case r of
           Some e \<Rightarrow> (ags2, \<lparr>printed = None, sync_calls = calls, raised = Some e\<rparr>)
         | None \<Rightarrow>
             (case aggregate ags2 of
                Inl e \<Rightarrow> (ags2, \<lparr>printed = None, sync_calls = calls, raised = Some e\<rparr>)
              | Inr rep \<Rightarrow>
                  (case report_testing_accuracy infer ags2 of
                     (ags3, calls', Inl e) \<Rightarrow>
                       (ags3, \<lparr>printed = Some rep, sync_calls = calls @ calls',
                               raised = Some e\<rparr>)
                   | (ags3, calls', Inr _) \<Rightarrow>
                       (ags3, \<lparr>printed = Some rep, sync_calls = calls @ calls',
                               raised = None\<rparr>))))"

text \<open>
  Two notions used to state the results on \<open>synchronize_weights\<close>: the entrywise sum
  of two state dictionaries with the same keys in the same order, and the agreement of
  two state dictionaries on keys, key order and tensor sizes.
\<close>

definition sd_add :: "state_dict \<Rightarrow> state_dict \<Rightarrow> state_dict" where
  "sd_add g sd = map2 (\<lambda>(k, t) (k', v). (k, map2 (+) t v)) g sd"

definition same_shape :: "state_dict \<Rightarrow> state_dict \<Rightarrow> bool" where
  "same_shape g sd \<longleftrightarrow>
     map (\<lambda>(k, t). (k, length t)) g = map (\<lambda>(k, t). (k, length t)) sd"


section \<open>mainMASCNN.py: the worker training unit \<open>train_simulated\<close>\<close>

subsection \<open>Floating-point values that are compared\<close>

text \<open>
  The validation loss is a Python float that is only compared with \<open><\<close>.  A float is
  a rational, an infinity or NaN, and \<open><\<close> on floats is the order of these values,
  false whenever an operand is NaN.
\<close>

datatype flt = Fin rat | PosInf | NegInf | NaN

fun flt_less :: "flt \<Rightarrow> flt \<Rightarrow> bool" where
  "flt_less (Fin a) (Fin b) = (a < b)"
| "flt_less (Fin a) PosInf = True"
| "flt_less NegInf (Fin b) = True"
| "flt_less NegInf PosInf = True"
| "flt_less _ _ = False"

subsection \<open>Command-line options\<close>

text \<open>
  The options bundle \<open>args\<close>.  \<open>train_simulated\<close> reads \<open>epochs\<close>,
  \<open>patience\<close>, \<open>activation\<close>, \<open>loss\<close> and \<open>optimizer\<close>; \<open>main\<close> of
  \<open>main_p8020_EXT.py\<close> reads \<open>folds\<close>, \<open>processors\<close>, \<open>epochs\<close>,
  \<open>batch_size\<close> and \<open>lr\<close> (a finite number), and \<open>ds\<close> to choose the architecture
  of the network, which is a collaborator here.
\<close>

record args =
  folds :: int
  processors :: int
  epochs :: int
  batch_size :: int
  lr :: rat
  patience :: int
  activation :: string
  loss :: string
  optimizer :: string

subsection \<open>The selector chains\<close>

text \<open>
  Each \<open>if\<close>/\<open>elif\<close> chain has no \<open>else\<close>: for an unknown selector the local
  variable stays unbound, written \<open>None\<close>.
\<close>

datatype activation_fn = ReLU | LeakyReLU | ELU | SELU | GELU | Mish
datatype criterion = CrossEntropy | LabelSmoothing | Focal | WeightedCrossEntropy
datatype optim = Adam | AdamW | SGDMomentum | RMSprop

definition choose_activation :: "string \<Rightarrow> activation_fn option" where
  "choose_activation s =
     (if s = ''RELU'' then Some ReLU
      else if s = ''LEAKY_RELU'' then Some LeakyReLU
      else if s = ''ELU'' then Some ELU
      else if s = ''SELU'' then Some SELU
      else if s = ''GELU'' then Some GELU
      else if s = ''MISH'' then Some Mish
      else None)"

definition choose_criterion :: "string \<Rightarrow> criterion option" where
  "choose_criterion s =
     (if s = ''CE'' then Some CrossEntropy
      else if s = ''LSCE'' then Some LabelSmoothing
      else if s = ''FC'' then Some Focal
      else if s = ''WCE'' then Some WeightedCrossEntropy
      else None)"

definition choose_optimizer :: "string \<Rightarrow> optim option" where
  "choose_optimizer s =
     (if s = ''ADAM'' then Some Adam
      else if s = ''ADAMW'' then Some AdamW
      else if s = ''SGDM'' then Some SGDMomentum
      else if s = ''RMSP'' then Some RMSprop
      else None)"

subsection \<open>The collaborators of one training run\<close>

text \<open>
  The network, the data loader, the clock and the synchronisation callback are outside
  the coordinator.  One run of \<open>train_simulated\<close> sees them through the values below:
  the sizes of the batches that the loader yields in every epoch, for epoch \<open>e\<close> and
  batch \<open>b\<close> the loss and the number of correct predictions, for epoch \<open>e\<close> its
  duration, validation loss and validation hits, the size of the validation part, and
  after \<open>n\<close> epochs the network and its hits on the training part.  The data
  preparation of lines 53 to 72 and the callback are taken to return normally.
\<close>

record 'm training =
  batch_sizes :: "nat list"
  batch_loss :: "nat \<Rightarrow> nat \<Rightarrow> flt"
  batch_correct :: "nat \<Rightarrow> nat \<Rightarrow> nat"
  epoch_processing_time :: "nat \<Rightarrow> rat"
  val_loss :: "nat \<Rightarrow> flt"
  val_hits :: "nat \<Rightarrow> nat"
  n_val :: nat
  model_after :: "nat \<Rightarrow> 'm"
  train_hits_after :: "nat \<Rightarrow> nat"

text \<open>What a run does to the network and its surroundings, in order.\<close>

datatype event = ZeroGrad | Forward | Backward | OptimizerStep | SyncCallback | Validation

text \<open>The local variables of \<open>train_simulated\<close> that the epoch loop assigns.\<close>

record run_state =
  best_val_loss :: flt
  epochs_without_improvement :: int
  processing_times :: "rat list"
  correct_train :: nat
  total_train :: nat
  loss_var :: "flt option"
  validation_accuracy :: "rat option"
  correct_val :: "nat option"
  events :: "event list"

definition init_state :: run_state where
  "init_state =
     \<lparr>best_val_loss = PosInf, epochs_without_improvement = 0, processing_times = [],
      correct_train = 0, total_train = 0, loss_var = None, validation_accuracy = None,
      correct_val = None, events = []\<rparr>"

subsection \<open>The loops\<close>

text \<open>
  The batch loop of lines 127 to 136, over the numbered batches of epoch \<open>e\<close>.  An
  error carries the events that happened before it.
\<close>

fun batch_loop ::
  "criterion option \<Rightarrow> optim option \<Rightarrow> 'm training \<Rightarrow> nat \<Rightarrow> (nat \<times> nat) list \<Rightarrow> run_state
     \<Rightarrow> (error \<times> event list) + run_state" where
  "batch_loop crit opt w e [] st = Inr st"
| "batch_loop crit opt w e ((b, n) # bs) st =
     (case opt of
        None \<Rightarrow> Inl (UnboundLocalError, events st)
      | Some _ \<Rightarrow>
          (case crit of
             None \<Rightarrow> Inl (UnboundLocalError, events st @ [ZeroGrad, Forward])
           | Some _ \<Rightarrow>
               batch_loop crit opt w e bs
                 (st\<lparr>loss_var := Some (batch_loss w e b),
                     correct_train := correct_train st + batch_correct w e b,
                     total_train := total_train st + n,
                     events := events st @ [ZeroGrad, Forward, Backward, OptimizerStep]\<rparr>)))"

text \<open>Lines 157 to 161: the early-stopping update with the validation loss \<open>v\<close>.\<close>

definition early_stopping_update :: "flt \<Rightarrow> run_state \<Rightarrow> run_state" where
  "early_stopping_update v st =
     (if flt_less v (best_val_loss st)
      then st\<lparr>best_val_loss := v, epochs_without_improvement := 0\<rparr>
      else st\<lparr>epochs_without_improvement := epochs_without_improvement st + 1\<rparr>)"

text \<open>One pass through the body of the epoch loop, up to the early-stopping update.\<close>

definition epoch_body ::
  "criterion option \<Rightarrow> optim option \<Rightarrow> 'm training \<Rightarrow> nat \<Rightarrow> run_state
     \<Rightarrow> (error \<times> event list) + run_state" where
  "epoch_body crit opt w e st =
     (case batch_loop crit opt w e (enumerate 0 (batch_sizes w))
             (st\<lparr>correct_train := 0, total_train := 0\<rparr>) of
        Inl x \<Rightarrow> Inl x
      | Inr st1 \<Rightarrow>
          (let st2 = st1\<lparr>processing_times := processing_times st1 @ [epoch_processing_time w e],
                         events := events st1 @ [SyncCallback, Validation]\<rparr>
           in case crit of
                None \<Rightarrow> Inl (UnboundLocalError, events st2)
              | Some _ \<Rightarrow>
                  if n_val w = 0 then Inl (ZeroDivisionError, events st2)
                  else if total_train st2 = 0 then Inl (ZeroDivisionError, events st2)
                  else Inr (early_stopping_update (val_loss w e)
                              (st2\<lparr>correct_val := Some (val_hits w e),
                                   validation_accuracy :=
                                     Some (of_nat (val_hits w e) / of_nat (n_val w) * 100)\<rparr>))))"

text \<open>
  \<open>for epoch in range(args.epochs)\<close> with the \<open>break\<close> of lines 163 to 165, over
  the epochs still to run.
\<close>

fun epoch_loop ::
  "criterion option \<Rightarrow> optim option \<Rightarrow> int \<Rightarrow> 'm training \<Rightarrow> nat list \<Rightarrow> run_state
     \<Rightarrow> (error \<times> event list) + run_state" where
  "epoch_loop crit opt pat w [] st = Inr st"
| "epoch_loop crit opt pat w (e # es) st =
     (case epoch_body crit opt w e st of
        Inl x \<Rightarrow> Inl x
      | Inr st' \<Rightarrow>
          if epochs_without_improvement st' \<ge> pat then Inr st'
          else epoch_loop crit opt pat w es st')"

subsection \<open>\<open>train_simulated\<close>\<close>

text \<open>The tuple that \<open>train_simulated\<close> returns.\<close>

record 'm sim_result =
  final_loss :: flt
  final_validation_accuracy :: rat
  trained_model :: 'm
  correct_classifications_train :: nat
  final_correct_val :: nat
  val_size :: nat
  slowest_processing_time :: rat

definition run_epochs ::
  "args \<Rightarrow> 'm training \<Rightarrow> (error \<times> event list) + run_state" where
  "run_epochs a w =
     epoch_loop (choose_criterion (loss a)) (choose_optimizer (optimizer a)) (patience a) w
       [0..<nat (epochs a)] init_state"

definition train_simulated ::
  "args \<Rightarrow> 'm training \<Rightarrow> (error \<times> event list) + 'm sim_result" where
  "train_simulated a w =
     (case choose_activation (activation a) of
        None \<Rightarrow> Inl (UnboundLocalError, [])
      | Some _ \<Rightarrow>
          (case run_epochs a w of
             Inl x \<Rightarrow> Inl x
           | Inr st \<Rightarrow>
               (case py_max (processing_times st) of
                  Inl e \<Rightarrow> Inl (e, events st)
                | Inr slowest \<Rightarrow>
                    (case (loss_var st, validation_accuracy st, correct_val st) of
                       (Some l, Some va, Some cv) \<Rightarrow>
                         Inr \<lparr>final_loss = l,
                              final_validation_accuracy = va,
                              trained_model = model_after w (length (processing_times st)),
                              correct_classifications_train =
                                train_hits_after w (length (processing_times st)),
                              final_correct_val = cv,
                              val_size = n_val w,
                              slowest_processing_time = slowest\<rparr>
                     | _ \<Rightarrow> Inl (UnboundLocalError, events st @ [Forward])))))"


section \<open>main_p8020_EXT.py: cross-validation on a process pool\<close>

text \<open>
  The module \<open>train_p8020_EXT\<close> is not among the sources; of a fold's result \<open>main\<close>
  reads the loss, the validation accuracy and the model.  Losses and accuracies are taken
  to be finite numbers (no NaN).
\<close>

record 'm fold_result =
  fold_loss_of :: rat
  accuracy_of :: rat
  model_of :: 'm

text \<open>
  The collaborators of \<open>main\<close>: the number of examples of the data set and of its
  training part (\<open>train_test_split\<close>, taken to return normally); the training of fold
  \<open>i\<close> (the missing function \<open>train\<close>); in the single-split branch the exception, if
  any, that the network raises on batch \<open>b\<close> of epoch \<open>e\<close>, the network that the
  training produces and the measured training and testing times; the accuracy of a
  network on the held-out test set (\<open>test_model\<close>); and the wall-clock time of the pool.
\<close>

record 'm cv_world =
  n_samples :: nat
  n_train :: nat
  train :: "nat \<Rightarrow> error + 'm fold_result"
  batch_failure :: "nat \<Rightarrow> nat \<Rightarrow> error option"
  single_model :: 'm
  single_train_time :: rat
  single_test_time :: rat
  test_model :: "'m \<Rightarrow> rat"
  pool_elapsed_time :: rat

text \<open>The figures that \<open>main\<close> prints in its two branches.\<close>

datatype summary =
    SingleSplit (single_test_accuracy: rat) (training_time: rat) (testing_time: rat)
  | CrossValidation (average_validation_accuracy: rat) (best_test_accuracy: rat)
      (elapsed_time_of: rat)

text \<open>
  The training work that \<open>main\<close> starts, in order: the events of the network it
  trains itself, the creation of the process pool, the submission of the training of a
  fold to the pool.
\<close>

datatype activity = Net event | PoolCreated | TaskSubmitted nat

subsection \<open>The single-split branch\<close>

text \<open>
  The batches of \<open>DataLoader(dataset, batch_size = bs, shuffle = True)\<close> on \<open>n\<close>
  rows, by their sizes: full batches and, if rows remain, a last smaller one.
\<close>

definition loader_batches :: "nat \<Rightarrow> nat \<Rightarrow> nat list" where
  "loader_batches n bs = replicate (n div bs) bs @ (if n mod bs = 0 then [] else [n mod bs])"

text \<open>The loops of lines 99 to 105 over the numbered batches and the epochs.\<close>

fun single_batches ::
  "(nat \<Rightarrow> nat \<Rightarrow> error option) \<Rightarrow> nat \<Rightarrow> (nat \<times> nat) list \<Rightarrow> event list
     \<Rightarrow> (error \<times> event list) + event list" where
  "single_batches fail e [] ev = Inr ev"
| "single_batches fail e ((b, n) # bs) ev =
     (case fail e b of
        Some err \<Rightarrow> Inl (err, ev @ [ZeroGrad])
      | None \<Rightarrow> single_batches fail e bs (ev @ [ZeroGrad, Forward, Backward, OptimizerStep]))"

fun single_epochs ::
  "(nat \<Rightarrow> nat \<Rightarrow> error option) \<Rightarrow> (nat \<times> nat) list \<Rightarrow> nat list \<Rightarrow> event list
     \<Rightarrow> (error \<times> event list) + event list" where
  "single_epochs fail batches [] ev = Inr ev"
| "single_epochs fail batches (e # es) ev =
     (case single_batches fail e batches ev of
        Inl x \<Rightarrow> Inl x
      | Inr ev' \<Rightarrow> single_epochs fail batches es ev')"

text \<open>
  Lines 80 to 118.  \<open>optim.SGD\<close> refuses a negative learning rate and \<open>DataLoader\<close>
  a batch size that is not positive, both with \<open>ValueError\<close>.  The result is the
  training work done and the printed summary or the exception.
\<close>

definition single_split_run :: "args \<Rightarrow> 'm cv_world \<Rightarrow> activity list \<times> (error + summary)" where
  "single_split_run a w =
     (if lr a < 0 then ([], Inl ValueError)
      else if batch_size a \<le> 0 then ([], Inl ValueError)
      else case single_epochs (batch_failure w)
                  (enumerate 0 (loader_batches (n_train w) (nat (batch_size a))))
                  [0..<nat (epochs a)] [] of
             Inl (e, ev) \<Rightarrow> (map Net ev, Inl e)
           | Inr ev \<Rightarrow>
               (map Net ev,
                Inr (SingleSplit (test_model w (single_model w))
                       (single_train_time w) (single_test_time w))))"

subsection \<open>The cross-validation branch\<close>

text \<open>\<open>pool.starmap\<close>: the results in submission order, or an exception of a task.\<close>

fun starmap :: "(nat \<Rightarrow> error + 'r) \<Rightarrow> nat list \<Rightarrow> error + 'r list" where
  "starmap f [] = Inr []"
| "starmap f (i # is) =
     (case f i of
        Inl e \<Rightarrow> Inl e
      | Inr r \<Rightarrow> (case starmap f is of Inl e \<Rightarrow> Inl e | Inr rs \<Rightarrow> Inr (r # rs)))"

text \<open>
  \<open>parallel_kfold\<close>, lines 43 to 57.  \<open>KFold(n_splits = args.folds)\<close> of line 44
  refuses fewer than two splits, before the pool exists; \<open>Pool\<close> needs at least one
  process; \<open>kf.split(X)\<close>, read inside the pool's block, needs at least as many
  examples as folds.  All three raise \<open>ValueError\<close>.  \<open>parallel_kfold_run\<close> is the
  training work started and what the function returns or raises, \<open>parallel_kfold\<close>
  the latter alone.
\<close>

definition parallel_kfold_run ::
  "args \<Rightarrow> 'm cv_world \<Rightarrow> activity list \<times> (error + ('m fold_result list \<times> rat))" where
  "parallel_kfold_run a w =
     (if folds a < 2 then ([], Inl ValueError)
      else if processors a < 1 then ([], Inl ValueError)
      else if int (n_samples w) < folds a then ([PoolCreated], Inl ValueError)
      else let tasks = [0..<nat (folds a)];
               work = PoolCreated # map TaskSubmitted tasks
           in case starmap (train w) tasks of
                Inl e \<Rightarrow> (work, Inl e)
              | Inr results \<Rightarrow> (work, Inr (results, pool_elapsed_time w)))"

definition parallel_kfold :: "args \<Rightarrow> 'm cv_world \<Rightarrow> error + ('m fold_result list \<times> rat)" where
  "parallel_kfold a w = snd (parallel_kfold_run a w)"

text \<open>Lines 123 to 131: selection of the best fold, test of its model, the averages.\<close>

definition best_model_idx :: "rat list \<Rightarrow> error + nat" where
  "best_model_idx accuracies =
     (case py_max accuracies of
        Inl e \<Rightarrow> Inl e
      | Inr m \<Rightarrow> py_index accuracies m)"

definition cross_validation_summary ::
  "'m cv_world \<Rightarrow> 'm fold_result list \<Rightarrow> rat \<Rightarrow> error + summary" where
  "cross_validation_summary w results total_elapsed =
     (let accuracies = map accuracy_of results
      in case best_model_idx accuracies of
           Inl e \<Rightarrow> Inl e
         | Inr i \<Rightarrow>
             if i < length results
             then let best_model = model_of (results ! i);
                      test_accuracy = test_model w best_model
                  in if length accuracies = 0 then Inl ZeroDivisionError
                     else Inr (CrossValidation
                                 (sum_list accuracies / of_nat (length accuracies) * 100)
                                 test_accuracy total_elapsed)
             else Inl IndexError)"

text \<open>
  \<open>main\<close>, lines 67 to 135.  With fewer than two folds it takes the single-split
  branch; otherwise it runs \<open>parallel_kfold\<close> and summarises the folds.
  \<open>main_run\<close> is the training work started and the printed summary or the exception,
  \<open>main\<close> the latter alone.
\<close>

definition main_run :: "args \<Rightarrow> 'm cv_world \<Rightarrow> activity list \<times> (error + summary)" where
  "main_run a w =
     (if folds a < 2 then single_split_run a w
      else case parallel_kfold_run a w of
             (work, Inl e) \<Rightarrow> (work, Inl e)
           | (work, Inr (results, total_elapsed_time)) \<Rightarrow>
               (work, cross_validation_summary w results total_elapsed_time))"

definition main :: "args \<Rightarrow> 'm cv_world \<Rightarrow> error + summary" where
  "main a w = snd (main_run a w)"


section \<open>Notions of the specification\<close>

text \<open>
  The early-stopping policy in the specification's words: a state is the best validation
  loss so far and the number of epochs without improvement; it starts at
  \<open>(+infinity, 0)\<close>; a loss below the best replaces it and resets the counter, any
  other loss increments the counter.  \<open>spec_es_after vl k\<close> is the state after the
  validation losses of the epochs \<open>0, \<dots>, k - 1\<close>.
\<close>

definition spec_es_step :: "flt \<times> int \<Rightarrow> flt \<Rightarrow> flt \<times> int" where
  "spec_es_step s v = (if flt_less v (fst s) then (v, 0) else (fst s, snd s + 1))"

definition spec_es_after :: "(nat \<Rightarrow> flt) \<Rightarrow> nat \<Rightarrow> flt \<times> int" where
  "spec_es_after vl k = foldl spec_es_step (PosInf, 0) (map vl [0..<k])"

text \<open>The early-stopping part of the local variables of \<open>train_simulated\<close>.\<close>

definition es_of :: "run_state \<Rightarrow> flt \<times> int" where
  "es_of st = (best_val_loss st, epochs_without_improvement st)"

text \<open>
  The mean of accuracies in the specification's words: the arithmetic mean of each
  worker's own accuracy percentage.
\<close>

definition spec_mean_of_accuracies :: "agent list \<Rightarrow> rat" where
  "spec_mean_of_accuracies ags =
     sum_list (map (\<lambda>a. of_int (correct_classifications a) /
                           of_int (total_examples_processed a) * 100) ags)
       / of_nat (length ags)"


section \<open>Example inputs\<close>

text \<open>
  A run of ten epochs at most with patience 2 on batches of sizes 2 and 1: the validation
  loss improves in the first epoch only, the second epoch is the slowest.
\<close>

definition ex_args :: args where
  "ex_args =
     \<lparr>folds = 5, processors = 2, epochs = 10, batch_size = 20, lr = 1 / 100, patience = 2,
      activation = ''RELU'', loss = ''CE'', optimizer = ''ADAM''\<rparr>"

definition ex_training :: "nat training" where
  "ex_training =
     \<lparr>batch_sizes = [2, 1],
      batch_loss = (\<lambda>e b. Fin 1),
      batch_correct = (\<lambda>e b. 1),
      epoch_processing_time = (\<lambda>e. if e = 1 then 3 else 1),
      val_loss = (\<lambda>e. if e = 0 then Fin 1 else Fin 2),
      val_hits = (\<lambda>e. 1),
      n_val = 2,
      model_after = (\<lambda>n. n),
      train_hits_after = (\<lambda>n. 2)\<rparr>"

text \<open>
  Three folds whose networks are named by their fold index; the last two tie.  The data
  set has 100 examples, 80 of them in the training part.
\<close>

definition ex_results :: "nat fold_result list" where
  "ex_results =
     [\<lparr>fold_loss_of = 1, accuracy_of = 4 / 5, model_of = 0\<rparr>,
      \<lparr>fold_loss_of = 1, accuracy_of = 9 / 10, model_of = 1\<rparr>,
      \<lparr>fold_loss_of = 1, accuracy_of = 9 / 10, model_of = 2\<rparr>]"

definition ex_cv_world :: "nat cv_world" where
  "ex_cv_world =
     \<lparr>n_samples = 100,
      n_train = 80,
      train = (\<lambda>i. if i < 3 then Inr (ex_results ! i) else Inl IndexError),
      batch_failure = (\<lambda>e b. None),
      single_model = 7,
      single_train_time = 30,
      single_test_time = 1,
      test_model = (\<lambda>m. of_nat m / 10),
      pool_elapsed_time = 12\<rparr>"

text \<open>Agents by network, correct count and processed count.\<close>

definition ex_agent :: "nat \<Rightarrow> state_dict option \<Rightarrow> int \<Rightarrow> int \<Rightarrow> agent" where
  "ex_agent i net c n =
     \<lparr>unique_id = i, neural_net_model = net, fold_loss = 1, processing_time = 2,
      correct_classifications = c, total_examples_processed = n\<rparr>"


section \<open>The shards of \<open>_split_data_and_create_agents\<close>\<close>

lemma length_chunks: "length (chunks ss xs) = length ss"
  by (induction ss arbitrary: xs) auto

lemma concat_chunks: "length xs \<le> sum_list ss \<Longrightarrow> concat (chunks ss xs) = xs"
  by (induction ss arbitrary: xs) auto

lemma chunks_nth_length:
  "sum_list ss \<le> length xs \<Longrightarrow> i < length ss \<Longrightarrow> length (chunks ss xs ! i) = ss ! i"
proof (induction ss arbitrary: xs i)
  case Nil
  then show ?case by simp
next
  case (Cons s ss)
  show ?case
  proof (cases i)
    case 0
    with Cons.prems show ?thesis by simp
  next
    case (Suc j)
    with Cons.prems Cons.IH [of "drop s xs" j] show ?thesis by simp
  qed
qed

lemma sum_list_section_sizes: "0 < k \<Longrightarrow> sum_list (section_sizes n k) = n"
proof -
  assume k: "0 < k"
  have "n mod k \<le> k" using k by (simp add: less_imp_le)
  then have "sum_list (section_sizes n k) = (n mod k) * (n div k + 1) + (k - n mod k) * (n div k)"
    by (simp add: section_sizes_def sum_list_replicate)
  also have "\<dots> = n mod k + k * (n div k)"
    using \<open>n mod k \<le> k\<close> by (simp add: algebra_simps flip: add_mult_distrib)
  also have "\<dots> = n" by simp
  finally show ?thesis .
qed

lemma length_section_sizes: "0 < k \<Longrightarrow> length (section_sizes n k) = k"
  by (simp add: section_sizes_def less_imp_le)

lemma section_sizes_range:
  "s \<in> set (section_sizes n k) \<Longrightarrow> s = n div k \<or> s = n div k + 1"
  by (auto simp: section_sizes_def)

lemma disjoint_nth_concat:
  "distinct (concat xss) \<Longrightarrow> i < length xss \<Longrightarrow> j < length xss \<Longrightarrow> i \<noteq> j
     \<Longrightarrow> set (xss ! i) \<inter> set (xss ! j) = {}"
proof (induction xss arbitrary: i j)
  case Nil
  then show ?case by simp
next
  case (Cons xs xss)
  have sub: "\<And>m. m < length xss \<Longrightarrow> set (xss ! m) \<subseteq> set (concat xss)"
    using nth_mem by fastforce
  from Cons.prems have d: "set xs \<inter> set (concat xss) = {}" and dx: "distinct (concat xss)"
    by auto
  show ?case
  proof (cases i)
    case i0: 0
    then obtain j' where j: "j = Suc j'" using Cons.prems by (cases j) auto
    with Cons.prems have "j' < length xss" by simp
    from sub [OF this] d show ?thesis using i0 j by auto
  next
    case (Suc i')
    note i = Suc
    show ?thesis
    proof (cases j)
      case 0
      from Cons.prems i have "i' < length xss" by simp
      from sub [OF this] d show ?thesis using i 0 by auto
    next
      case (Suc j')
      with i Cons.prems Cons.IH [OF dx, of i' j'] show ?thesis by simp
    qed
  qed
qed

text \<open>
  Claim C7.  For every training set \<open>X\<close> with labels \<open>Y\<close> and every shard count
  \<open>N \<ge> 1\<close> the partitioner creates the agents \<open>0, \<dots>, N - 1\<close>, agent \<open>i\<close> on
  the \<open>i\<close>-th shard of \<open>X\<close> and of \<open>Y\<close>.  The concatenation of the shards is
  the whole set: they are contiguous, keep the original order and cover everything.  The
  shards of \<open>X\<close> and \<open>Y\<close> have the same sizes, the sizes differ by at most one, and
  when the rows are pairwise different (as indices are) the shards are pairwise disjoint.
\<close>

theorem shards_partition:
  assumes "1 \<le> N"
  shows "\<exists>sx sy. split_data_and_create_agents (\<lambda>i xs ys. (i, xs, ys)) N X Y
                   = Inr (map (\<lambda>i. (i, sx ! i, sy ! i)) [0..<nat N])
           \<and> length sx = nat N \<and> length sy = nat N
           \<and> concat sx = X \<and> concat sy = Y
           \<and> (length X = length Y \<longrightarrow> map length sx = map length sy)
           \<and> (\<forall>i < nat N. \<forall>j < nat N. length (sx ! i) \<le> length (sx ! j) + 1)
           \<and> (distinct X \<longrightarrow>
                (\<forall>i < nat N. \<forall>j < nat N. i \<noteq> j \<longrightarrow> set (sx ! i) \<inter> set (sx ! j) = {}))"
proof (cases "N = 1")
  case True
  have "split_data_and_create_agents (\<lambda>i xs ys. (i, xs, ys)) N X Y
          = Inr (map (\<lambda>i. (i, [X] ! i, [Y] ! i)) [0..<nat N])"
    using True by (simp add: split_data_and_create_agents_def)
  moreover have "length [X] = nat N" "length [Y] = nat N" "concat [X] = X" "concat [Y] = Y"
    using True by simp_all
  moreover have "length X = length Y \<longrightarrow> map length [X] = map length [Y]" by simp
  moreover have "\<forall>i < nat N. \<forall>j < nat N. length ([X] ! i) \<le> length ([X] ! j) + 1"
    using True by simp
  moreover have "distinct X \<longrightarrow>
      (\<forall>i < nat N. \<forall>j < nat N. i \<noteq> j \<longrightarrow> set ([X] ! i) \<inter> set ([X] ! j) = {})"
    using True by simp
  ultimately show ?thesis by blast
next
  case False
  with assms have N: "0 < nat N" "\<not> N \<le> 0" by auto
  let ?ss = "section_sizes (length X) (nat N)"
  let ?ts = "section_sizes (length Y) (nat N)"
  let ?sx = "chunks ?ss X"
  let ?sy = "chunks ?ts Y"
  have len: "length ?sx = nat N" "length ?sy = nat N"
    using N by (simp_all add: length_chunks length_section_sizes)
  have eq: "split_data_and_create_agents (\<lambda>i xs ys. (i, xs, ys)) N X Y
              = Inr (map (\<lambda>i. (i, ?sx ! i, ?sy ! i)) [0..<nat N])"
    using False N by (simp add: split_data_and_create_agents_def array_split_def)
  have cc: "concat ?sx = X" "concat ?sy = Y"
    using N by (simp_all add: concat_chunks sum_list_section_sizes)
  have s: "sum_list ?ss \<le> length X" "sum_list ?ts \<le> length Y"
    using N by (simp_all add: sum_list_section_sizes)
  have lx: "length (?sx ! i) = ?ss ! i" if "i < nat N" for i
    using that N chunks_nth_length [OF s(1), of i] by (simp add: length_section_sizes)
  have ly: "length (?sy ! i) = ?ts ! i" if "i < nat N" for i
    using that N chunks_nth_length [OF s(2), of i] by (simp add: length_section_sizes)
  have same: "map length ?sx = map length ?sy" if "length X = length Y"
    using that len lx ly by (simp add: list_eq_iff_nth_eq)
  have sz: "length (?sx ! i) \<le> length (?sx ! j) + 1" if "i < nat N" "j < nat N" for i j
  proof -
    from that N have ij: "i < length ?ss" "j < length ?ss" by (simp_all add: length_section_sizes)
    then have "?ss ! i \<in> set ?ss" "?ss ! j \<in> set ?ss" by simp_all
    then have "?ss ! i \<le> ?ss ! j + 1"
      by (auto dest!: section_sizes_range)
    then show ?thesis using lx [OF that(1)] lx [OF that(2)] by simp
  qed
  have dj: "set (?sx ! i) \<inter> set (?sx ! j) = {}"
    if "distinct X" "i < nat N" "j < nat N" "i \<noteq> j" for i j
    using that cc(1) len(1) disjoint_nth_concat [of ?sx i j] by simp
  from eq len cc same sz dj show ?thesis by blast
qed

theorem shards_partition_witness:
  "(1::int) \<le> 3 \<and>
   split_data_and_create_agents (\<lambda>i xs ys. (i, xs, ys)) 3
       [10, 11, 12, 13, 14, 15, 16 :: nat] ''abcdefg''
     = Inr [(0, [10, 11, 12], ''abc''), (1, [13, 14], ''de''), (2, [15, 16], ''fg'')] \<and>
   concat [[10, 11, 12], [13, 14], [15, 16 :: nat]] = [10, 11, 12, 13, 14, 15, 16]"
proof -
  have h: "(1::int) \<le> 3" by simp
  have e: "split_data_and_create_agents (\<lambda>i xs ys. (i, xs, ys)) 3
       [10, 11, 12, 13, 14, 15, 16 :: nat] ''abcdefg''
     = Inr [(0, [10, 11, 12], ''abc''), (1, [13, 14], ''de''), (2, [15, 16], ''fg'')]"
    by code_simp
  from shards_partition [OF h, of "[10, 11, 12, 13, 14, 15, 16 :: nat]" "''abcdefg''"] e h
  show ?thesis by auto
qed


section \<open>Synchronisation of the agents\<close>

lemma update_middle:
  "k \<notin> fst ` set d \<Longrightarrow> AList.update k v (d @ (k, t) # r) = d @ (k, v) # r"
  by (induction d) auto

lemma map_of_middle:
  "k \<notin> fst ` set d \<Longrightarrow> map_of (d @ (k, t) # r) k = Some t"
  by (induction d) auto

lemma same_shape_Cons:
  "same_shape (p # g) (q # sd) \<longleftrightarrow> fst p = fst q \<and> length (snd p) = length (snd q) \<and> same_shape g sd"
  by (cases p; cases q) (auto simp: same_shape_def)

lemma same_shape_Nil: "same_shape g [] \<longleftrightarrow> g = []" "same_shape [] sd \<longleftrightarrow> sd = []"
  by (auto simp: same_shape_def)

lemma accumulate_aligned:
  "distinct (map fst (d @ r)) \<Longrightarrow> same_shape r kvs
     \<Longrightarrow> accumulate (d @ r) kvs = Inr (d @ sd_add r kvs)"
proof (induction kvs arbitrary: d r)
  case Nil
  then show ?case by (simp add: same_shape_Nil sd_add_def)
next
  case (Cons kv kvs)
  obtain k v where kv: "kv = (k, v)" by (cases kv)
  from Cons.prems(2) obtain t r' where r: "r = (k, t) # r'"
    and len: "length t = length v" and ss: "same_shape r' kvs"
    by (cases r) (auto simp: same_shape_Cons kv same_shape_Nil)
  from Cons.prems(1) r have nk: "k \<notin> fst ` set d" by auto
  from Cons.prems(1) r have dist: "distinct (map fst ((d @ [(k, map2 (+) t v)]) @ r'))" by auto
  have "accumulate (d @ r) (kv # kvs) = accumulate ((d @ [(k, map2 (+) t v)]) @ r') kvs"
    using nk len
    by (simp add: kv r map_of_middle update_middle tensor_iadd_def del: map_of_append)
  also have "\<dots> = Inr ((d @ [(k, map2 (+) t v)]) @ sd_add r' kvs)"
    by (rule Cons.IH [OF dist ss])
  finally show ?case by (simp add: r kv sd_add_def)
qed

lemma accumulate_same_shape:
  "distinct (map fst g) \<Longrightarrow> same_shape g sd \<Longrightarrow> accumulate g sd = Inr (sd_add g sd)"
  using accumulate_aligned [of "[]" g sd] by simp

lemma sd_add_zeros: "sd_add (map (\<lambda>(k, v). (k, zeros_like v)) sd) sd = sd"
  by (induction sd) (auto simp: sd_add_def zeros_like_def map2_map_map intro: nth_equalityI)

lemma same_shape_zeros: "same_shape (map (\<lambda>(k, v). (k, zeros_like v)) sd) sd"
  by (induction sd) (auto simp: same_shape_def zeros_like_def)

lemma load_state_dict_self:
  "distinct (map fst sd) \<Longrightarrow> load_state_dict sd sd = Inr sd"
proof -
  assume d: "distinct (map fst sd)"
  have "map (\<lambda>(k, v). (k, the (map_of sd k))) sd = map (\<lambda>p. p) sd"
    using d by (intro map_cong) auto
  then show ?thesis using d by (auto simp: load_state_dict_def)
qed

lemma sync_single:
  assumes "neural_net_model a = Some sd" "distinct (map fst sd)"
  shows "synchronize_weights (Some sd) [a] = ([a], None)"
proof -
  let ?z = "map (\<lambda>(k, v). (k, zeros_like v)) sd"
  have dz: "distinct (map fst ?z)" using assms(2) by (simp add: case_prod_unfold comp_def)
  have "collect_weights ?z [a] = Inr sd"
    using assms accumulate_same_shape [OF dz same_shape_zeros] by (simp add: sd_add_zeros)
  moreover have "map (\<lambda>(k, t). (k, tensor_idiv t (length [a]))) sd = sd"
    by (induction sd) (auto simp: tensor_idiv_def)
  ultimately have "global_weights_of sd [a] = Inr sd"
    by (simp add: global_weights_of_def)
  then show ?thesis
    using assms by (simp add: synchronize_weights_def load_state_dict_self)
qed

text \<open>
  Claim C9.  \<open>synchronize_weights\<close> called with no state dictionary returns at once:
  no exception, and every agent is exactly as before the call.
\<close>

theorem sync_none_noop: "synchronize_weights None ags = (ags, None)"
  by (simp add: synchronize_weights_def)

theorem sync_none_noop_witness:
  "synchronize_weights None [ex_agent 0 (Some [(''w'', [2])]) 8 10, ex_agent 1 None 18 20]
     = ([ex_agent 0 (Some [(''w'', [2])]) 8 10, ex_agent 1 None 18 20], None)"
  using sync_none_noop [of "[ex_agent 0 (Some [(''w'', [2])]) 8 10, ex_agent 1 None 18 20]"]
  by simp

text \<open>
  Claim C10, as the code has it.  With exactly one processor the only agent is created on
  the whole training set, unsplit.  In \<open>step\<close> the call of \<open>synchronize_weights\<close> of
  line 60 is not made (no call without a state dictionary is recorded), but
  \<open>report_testing_accuracy\<close> still calls \<open>synchronize_weights\<close>: once, with the
  agent's own state dictionary, whenever the agent holds a network and the report has
  been printed.  That call averages one network with itself, so the agents after the step
  are the agents that the training step produced, whatever the outcome of the step.  The
  state dictionary of the agent is a dictionary: its keys are distinct.
\<close>

theorem single_processor:
  "split_data_and_create_agents mk 1 X_train y_train = Inr [mk 0 X_train y_train] \<and>
   (schedule_step ags = [a] \<and> (\<forall>sd. neural_net_model a = Some sd \<longrightarrow> distinct (map fst sd))
      \<longrightarrow> fst (step schedule_step infer 1 ags) = [a]
        \<and> None \<notin> set (sync_calls (snd (step schedule_step infer 1 ags)))
        \<and> (\<forall>sd. neural_net_model a = Some sd \<and> total_examples_processed a \<noteq> 0
              \<longrightarrow> sync_calls (snd (step schedule_step infer 1 ags)) = [Some sd]
                \<and> printed (snd (step schedule_step infer 1 ags)) \<noteq> None))"
proof -
  have "fst (step schedule_step infer 1 ags) = [a]
        \<and> None \<notin> set (sync_calls (snd (step schedule_step infer 1 ags)))
        \<and> (\<forall>sd. neural_net_model a = Some sd \<and> total_examples_processed a \<noteq> 0
              \<longrightarrow> sync_calls (snd (step schedule_step infer 1 ags)) = [Some sd]
                \<and> printed (snd (step schedule_step infer 1 ags)) \<noteq> None)"
    if s: "schedule_step ags = [a]"
      and d: "\<forall>sd. neural_net_model a = Some sd \<longrightarrow> distinct (map fst sd)"
  proof (cases "neural_net_model a")
    case None
    with s show ?thesis
      by (simp add: step_def Let_def report_testing_accuracy_def split: sum.splits)
  next
    case (Some sd)
    with d have sy: "synchronize_weights (Some sd) [a] = ([a], None)"
      by (simp add: sync_single)
    show ?thesis
    proof (cases "aggregate [a]")
      case (Inl e)
      then have "total_examples_processed a = 0"
        by (simp add: aggregate_def Let_def split: if_splits)
      with Inl s Some show ?thesis
        by (simp add: step_def Let_def)
    next
      case (Inr rep)
      with s Some sy show ?thesis
        by (simp add: step_def Let_def report_testing_accuracy_def split: sum.splits)
    qed
  qed
  then show ?thesis by (simp add: split_data_and_create_agents_def)
qed

text \<open>
  Claim C10 as stated fails: a step with one processor does synchronise.  Here the agent's
  training step leaves it with a network; the step then calls \<open>synchronize_weights\<close>
  once with that network's state dictionary, from \<open>report_testing_accuracy\<close>.
\<close>

theorem single_processor_counterexample:
  "sync_calls (snd (step (map (\<lambda>a. a\<lparr>neural_net_model := Some [(''w'', [2, 4]), (''b'', [6])]\<rparr>))
                     (\<lambda>sd. Inr 90) 1 [ex_agent 0 None 8 10]))
     = [Some [(''w'', [2, 4]), (''b'', [6])]] \<and>
   sync_calls (snd (step (map (\<lambda>a. a\<lparr>neural_net_model := Some [(''w'', [2, 4]), (''b'', [6])]\<rparr>))
                     (\<lambda>sd. Inr 90) 1 [ex_agent 0 None 8 10]))
     \<noteq> []"
  by code_simp

theorem single_processor_witness:
  "split_data_and_create_agents (\<lambda>i xs ys. (i, xs, ys)) 1 [10, 11, 12 :: nat] ''abc''
     = Inr [(0, [10, 11, 12], ''abc'')] \<and>
   fst (step (map (\<lambda>a. a\<lparr>neural_net_model := Some [(''w'', [2, 4]), (''b'', [6])]\<rparr>))
          (\<lambda>sd. Inr 90) 1 [ex_agent 0 None 8 10])
     = [ex_agent 0 (Some [(''w'', [2, 4]), (''b'', [6])]) 8 10] \<and>
   None \<notin> set (sync_calls (snd
     (step (map (\<lambda>a. a\<lparr>neural_net_model := Some [(''w'', [2, 4]), (''b'', [6])]\<rparr>))
          (\<lambda>sd. Inr 90) 1 [ex_agent 0 None 8 10]))) \<and>
   sync_calls (snd
     (step (map (\<lambda>a. a\<lparr>neural_net_model := Some [(''w'', [2, 4]), (''b'', [6])]\<rparr>))
          (\<lambda>sd. Inr 90) 1 [ex_agent 0 None 8 10]))
     = [Some [(''w'', [2, 4]), (''b'', [6])]]"
proof -
  let ?N = "[(''w'', [2, 4]), (''b'', [6 :: rat])]"
  let ?s = "map (\<lambda>a. a\<lparr>neural_net_model := Some ?N\<rparr>)"
  let ?a = "ex_agent 0 (Some ?N) 8 10"
  have 1: "?s [ex_agent 0 None 8 10] = [?a]" by (simp add: ex_agent_def)
  have 2: "\<forall>sd. neural_net_model ?a = Some sd \<longrightarrow> distinct (map fst sd)"
    by (simp add: ex_agent_def)
  have 3: "neural_net_model ?a = Some ?N \<and> total_examples_processed ?a \<noteq> 0"
    by (simp add: ex_agent_def)
  note T = single_processor [of "\<lambda>i xs ys. (i, xs, ys)" "[10, 11, 12 :: nat]" "''abc''" ?s
      "[ex_agent 0 None 8 10]" ?a "\<lambda>sd. Inr 90"]
  from T have A: "split_data_and_create_agents (\<lambda>i xs ys. (i, xs, ys)) 1 [10, 11, 12 :: nat] ''abc''
     = Inr [(0, [10, 11, 12], ''abc'')]" by blast
  from T 1 2 have B: "fst (step ?s (\<lambda>sd. Inr 90) 1 [ex_agent 0 None 8 10]) = [?a]"
    and C: "None \<notin> set (sync_calls (snd (step ?s (\<lambda>sd. Inr 90) 1 [ex_agent 0 None 8 10])))"
    and D: "\<forall>sd. neural_net_model ?a = Some sd \<and> total_examples_processed ?a \<noteq> 0
              \<longrightarrow> sync_calls (snd (step ?s (\<lambda>sd. Inr 90) 1 [ex_agent 0 None 8 10])) = [Some sd]
                \<and> printed (snd (step ?s (\<lambda>sd. Inr 90) 1 [ex_agent 0 None 8 10])) \<noteq> None"
    by blast+
  from D 3 have E: "sync_calls (snd (step ?s (\<lambda>sd. Inr 90) 1 [ex_agent 0 None 8 10])) = [Some ?N]"
    by blast
  from A B C E show ?thesis by blast
qed

text \<open>
  With more than one processor the call of line 60 is made, without a state dictionary,
  before anything else.
\<close>

lemma several_processors_first_call:
  "1 < n \<Longrightarrow> \<exists>calls. sync_calls (snd (step schedule_step infer n ags)) = None # calls"
  by (auto simp: step_def Let_def synchronize_weights_def split: sum.splits prod.splits)


section \<open>The epoch loop of \<open>train_simulated\<close>\<close>

lemma spec_es_after_0: "spec_es_after vl 0 = (PosInf, 0)"
  by (simp add: spec_es_after_def)

lemma spec_es_after_Suc: "spec_es_after vl (Suc k) = spec_es_step (spec_es_after vl k) (vl k)"
  by (simp add: spec_es_after_def)

lemma es_of_update: "es_of (early_stopping_update v st) = spec_es_step (es_of st) v"
  by (simp add: es_of_def early_stopping_update_def spec_es_step_def)

lemma batch_loop_frame:
  "batch_loop crit opt w e bs st = Inr st' \<Longrightarrow>
     es_of st' = es_of st \<and> processing_times st' = processing_times st"
  by (induction bs arbitrary: st) (auto simp: es_of_def split: option.splits)

lemma batch_loop_total:
  "batch_loop crit opt w e bs st = Inr st' \<Longrightarrow>
     total_train st' = total_train st + sum_list (map snd bs)"
  by (induction bs arbitrary: st) (auto split: option.splits)

lemma batch_loop_returns:
  "crit \<noteq> None \<Longrightarrow> opt \<noteq> None \<Longrightarrow> \<exists>st'. batch_loop crit opt w e bs st = Inr st'"
  by (induction bs arbitrary: st) (auto split: option.splits)

lemma epoch_body_frame:
  assumes "epoch_body crit opt w e st = Inr st'"
  shows "es_of st' = spec_es_step (es_of st) (val_loss w e)"
    and "processing_times st' = processing_times st @ [epoch_processing_time w e]"
proof -
  from assms obtain st1 where b: "batch_loop crit opt w e (enumerate 0 (batch_sizes w))
             (st\<lparr>correct_train := 0, total_train := 0\<rparr>) = Inr st1"
    by (auto simp: epoch_body_def split: sum.splits)
  from batch_loop_frame [OF b] have f: "es_of st1 = es_of st" "processing_times st1 = processing_times st"
    by (simp_all add: es_of_def)
  let ?st2 = "st1\<lparr>processing_times := processing_times st1 @ [epoch_processing_time w e],
                         events := events st1 @ [SyncCallback, Validation]\<rparr>"
  let ?st3 = "?st2\<lparr>correct_val := Some (val_hits w e),
                                   validation_accuracy :=
                                     Some (of_nat (val_hits w e) / of_nat (n_val w) * 100)\<rparr>"
  from assms b have st': "st' = early_stopping_update (val_loss w e) ?st3"
    by (auto simp: epoch_body_def Let_def split: option.splits if_splits)
  have "es_of ?st3 = es_of st" using f by (simp add: es_of_def)
  then show "es_of st' = spec_es_step (es_of st) (val_loss w e)"
    by (simp add: st' es_of_update)
  show "processing_times st' = processing_times st @ [epoch_processing_time w e]"
    using f by (simp add: st' early_stopping_update_def)
qed

lemma epoch_body_returns:
  assumes "crit \<noteq> None" "opt \<noteq> None" "0 < sum_list (batch_sizes w)" "0 < n_val w"
  shows "\<exists>st'. epoch_body crit opt w e st = Inr st'"
proof -
  from batch_loop_returns [OF assms(1,2)] obtain st1 where
    b: "batch_loop crit opt w e (enumerate 0 (batch_sizes w))
             (st\<lparr>correct_train := 0, total_train := 0\<rparr>) = Inr st1"
    by blast
  from batch_loop_total [OF b] have "total_train st1 = sum_list (batch_sizes w)"
    by (simp add: comp_def)
  with assms(3) have tt: "total_train st1 \<noteq> 0" by linarith
  from assms(1,2,4) b tt show ?thesis
    by (auto simp: epoch_body_def Let_def)
qed

lemma epoch_loop_returns:
  assumes "crit \<noteq> None" "opt \<noteq> None" "0 < sum_list (batch_sizes w)" "0 < n_val w"
  shows "\<exists>st'. epoch_loop crit opt pat w es st = Inr st'"
proof (induction es arbitrary: st)
  case Nil
  show ?case by simp
next
  case (Cons e es)
  from epoch_body_returns [OF assms] obtain st1 where "epoch_body crit opt w e st = Inr st1"
    by blast
  with Cons.IH [of st1] show ?case by auto
qed

lemma epoch_loop_inv:
  assumes "epoch_loop crit opt pat w [i..<m] st = Inr st'"
    and "length (processing_times st) = i"
    and "es_of st = spec_es_after (val_loss w) i"
    and "processing_times st = map (epoch_processing_time w) [0..<i]"
  shows "i \<le> length (processing_times st') \<and> length (processing_times st') \<le> max i m
       \<and> (i < m \<longrightarrow> i < length (processing_times st'))
       \<and> es_of st' = spec_es_after (val_loss w) (length (processing_times st'))
       \<and> processing_times st' = map (epoch_processing_time w) [0..<length (processing_times st')]
       \<and> (\<forall>k. i < k \<and> k < length (processing_times st') \<longrightarrow> snd (spec_es_after (val_loss w) k) < pat)
       \<and> (length (processing_times st') < m \<longrightarrow> pat \<le> snd (spec_es_after (val_loss w) (length (processing_times st'))))"
  using assms
proof (induction "m - i" arbitrary: i st)
  case 0
  then show ?case by simp
next
  case (Suc d)
  then have im: "i < m" and up: "[i..<m] = i # [Suc i..<m]" by (auto simp: upt_conv_Cons)
  from Suc.prems(1) up obtain st1 where b: "epoch_body crit opt w i st = Inr st1"
    by (auto split: sum.splits)
  note fr = epoch_body_frame [OF b]
  have len1: "length (processing_times st1) = Suc i" using fr(2) Suc.prems(2) by simp
  have es1: "es_of st1 = spec_es_after (val_loss w) (Suc i)"
    using fr(1) Suc.prems(3) by (simp add: spec_es_after_Suc)
  have pt1: "processing_times st1 = map (epoch_processing_time w) [0..<Suc i]"
    using fr(2) Suc.prems(4) by simp
  show ?case
  proof (cases "pat \<le> epochs_without_improvement st1")
    case True
    with Suc.prems(1) up b have "st' = st1" by simp
    moreover from True es1 have "pat \<le> snd (spec_es_after (val_loss w) (Suc i))"
      by (simp add: es_of_def flip: es1)
    ultimately show ?thesis using len1 es1 pt1 im by auto
  next
    case False
    with Suc.prems(1) up b have l: "epoch_loop crit opt pat w [Suc i..<m] st1 = Inr st'" by simp
    from False es1 have lt: "snd (spec_es_after (val_loss w) (Suc i)) < pat"
      by (simp add: es_of_def flip: es1)
    from Suc.hyps(2) have d: "d = m - Suc i" by simp
    note IH = Suc.hyps(1) [OF d l len1 es1 pt1]
    show ?thesis
    proof (intro conjI allI impI)
      fix k assume "i < k \<and> k < length (processing_times st')"
      then show "snd (spec_es_after (val_loss w) k) < pat"
        using IH lt by (cases "k = Suc i") auto
    qed (use IH im in auto)
  qed
qed

lemma run_epochs_inv:
  assumes "run_epochs a w = Inr st"
  shows "length (processing_times st) \<le> nat (epochs a)"
    and "0 < epochs a \<Longrightarrow> 0 < length (processing_times st)"
    and "es_of st = spec_es_after (val_loss w) (length (processing_times st))"
    and "processing_times st = map (epoch_processing_time w) [0..<length (processing_times st)]"
    and "\<And>k. 0 < k \<Longrightarrow> k < length (processing_times st) \<Longrightarrow> snd (spec_es_after (val_loss w) k) < patience a"
    and "length (processing_times st) < nat (epochs a) \<Longrightarrow>
           patience a \<le> snd (spec_es_after (val_loss w) (length (processing_times st)))"
proof -
  have i: "length (processing_times init_state) = 0"
    "es_of init_state = spec_es_after (val_loss w) 0"
    "processing_times init_state = map (epoch_processing_time w) [0..<0]"
    by (simp_all add: init_state_def es_of_def spec_es_after_0)
  note inv = epoch_loop_inv [OF assms [unfolded run_epochs_def] i]
  from inv show "length (processing_times st) \<le> nat (epochs a)" by simp
  from inv show "0 < epochs a \<Longrightarrow> 0 < length (processing_times st)" by simp
  from inv show "es_of st = spec_es_after (val_loss w) (length (processing_times st))" by simp
  from inv show "processing_times st = map (epoch_processing_time w) [0..<length (processing_times st)]"
    by blast
  from inv show "\<And>k. 0 < k \<Longrightarrow> k < length (processing_times st) \<Longrightarrow> snd (spec_es_after (val_loss w) k) < patience a"
    by blast
  from inv show "length (processing_times st) < nat (epochs a) \<Longrightarrow>
           patience a \<le> snd (spec_es_after (val_loss w) (length (processing_times st)))"
    by blast
qed

lemma spec_es_counter_step: "snd (spec_es_after vl (Suc k)) \<le> snd (spec_es_after vl k) + 1"
proof -
  have nn: "0 \<le> snd (spec_es_after vl k)" for k
    by (induction k) (auto simp: spec_es_after_0 spec_es_after_Suc spec_es_step_def)
  show ?thesis
    using nn [of k] by (auto simp: spec_es_after_Suc spec_es_step_def)
qed

lemma run_epochs_no_overshoot:
  assumes "run_epochs a w = Inr st" "0 < patience a"
  shows "snd (spec_es_after (val_loss w) (length (processing_times st))) \<le> patience a"
proof (cases "length (processing_times st)")
  case 0
  with assms(2) show ?thesis by (simp add: spec_es_after_0)
next
  case (Suc k)
  have "snd (spec_es_after (val_loss w) k) < patience a"
  proof (cases k)
    case 0
    with assms(2) show ?thesis by (simp add: spec_es_after_0)
  next
    case (Suc j)
    with run_epochs_inv(5) [OF assms(1), of k] \<open>length (processing_times st) = Suc k\<close>
    show ?thesis by simp
  qed
  with spec_es_counter_step [of "val_loss w" k] Suc show ?thesis by simp
qed

text \<open>
  Claim C2.  The early-stopping state of a worker starts at best validation loss
  \<open>+infinity\<close> and counter 0, and each epoch's update is the step of the policy: a
  loss below the best replaces it and resets the counter, any other loss increments the
  counter.  With known loss and optimizer selectors, at least one training example and a
  non-empty validation part the epoch loop returns.  Whenever it returns, after \<open>n\<close>
  epochs: \<open>n\<close> is at most the configured number of epochs (and at least 1 if that is
  positive); the state is the policy's state after the first \<open>n\<close> validation losses;
  the counter was below the patience after every earlier epoch; if the loop ended before
  the last configured epoch, the counter has reached the patience; and for a positive
  patience the counter never exceeds it, so the loop ends exactly at the epoch where the
  counter equals the patience.
\<close>

theorem early_stopping_policy:
  "es_of init_state = (PosInf, 0) \<and>
   es_of (early_stopping_update v s) = spec_es_step (es_of s) v \<and>
   (choose_criterion (loss a) \<noteq> None \<and> choose_optimizer (optimizer a) \<noteq> None \<and>
    0 < sum_list (batch_sizes w) \<and> 0 < n_val w \<longrightarrow> (\<exists>st. run_epochs a w = Inr st)) \<and>
   (\<forall>st. run_epochs a w = Inr st \<longrightarrow>
      (let n = length (processing_times st) in
         n \<le> nat (epochs a) \<and> (0 < epochs a \<longrightarrow> 0 < n) \<and>
         es_of st = spec_es_after (val_loss w) n \<and>
         (\<forall>k. 0 < k \<and> k < n \<longrightarrow> snd (spec_es_after (val_loss w) k) < patience a) \<and>
         (n < nat (epochs a) \<longrightarrow> patience a \<le> snd (spec_es_after (val_loss w) n)) \<and>
         (0 < patience a \<longrightarrow> snd (spec_es_after (val_loss w) n) \<le> patience a)))"
proof (intro conjI allI impI)
  show "es_of init_state = (PosInf, 0)" by (simp add: es_of_def init_state_def)
  show "es_of (early_stopping_update v s) = spec_es_step (es_of s) v" by (rule es_of_update)
next
  assume "choose_criterion (loss a) \<noteq> None \<and> choose_optimizer (optimizer a) \<noteq> None \<and>
    0 < sum_list (batch_sizes w) \<and> 0 < n_val w"
  then show "\<exists>st. run_epochs a w = Inr st"
    unfolding run_epochs_def by (intro epoch_loop_returns) simp_all
next
  fix st assume r: "run_epochs a w = Inr st"
  show "let n = length (processing_times st) in
         n \<le> nat (epochs a) \<and> (0 < epochs a \<longrightarrow> 0 < n) \<and>
         es_of st = spec_es_after (val_loss w) n \<and>
         (\<forall>k. 0 < k \<and> k < n \<longrightarrow> snd (spec_es_after (val_loss w) k) < patience a) \<and>
         (n < nat (epochs a) \<longrightarrow> patience a \<le> snd (spec_es_after (val_loss w) n)) \<and>
         (0 < patience a \<longrightarrow> snd (spec_es_after (val_loss w) n) \<le> patience a)"
    unfolding Let_def
    using run_epochs_inv(1,2,3,5,6) [OF r] run_epochs_no_overshoot [OF r] by blast
qed

lemma ex_run:
  "run_epochs ex_args ex_training =
     Inr \<lparr>best_val_loss = Fin 1, epochs_without_improvement = 2, processing_times = [1, 3, 1],
          correct_train = 2, total_train = 3, loss_var = Some (Fin 1),
          validation_accuracy = Some 50, correct_val = Some 1,
          events = concat (replicate 3 [ZeroGrad, Forward, Backward, OptimizerStep, ZeroGrad, Forward, Backward, OptimizerStep, SyncCallback, Validation])\<rparr>"
  by code_simp

theorem early_stopping_policy_witness:
  "choose_criterion (loss ex_args) \<noteq> None \<and> choose_optimizer (optimizer ex_args) \<noteq> None \<and>
   0 < sum_list (batch_sizes ex_training) \<and> 0 < n_val ex_training \<and> 0 < patience ex_args \<and>
   map_sum id (\<lambda>st. (length (processing_times st), es_of st)) (run_epochs ex_args ex_training)
     = Inr (3, Fin 1, 2) \<and>
   (3::nat) < nat (epochs ex_args) \<and>
   snd (spec_es_after (val_loss ex_training) 3) = patience ex_args \<and>
   snd (spec_es_after (val_loss ex_training) 2) < patience ex_args \<and>
   snd (spec_es_after (val_loss ex_training) 1) < patience ex_args"
proof -
  have c: "choose_criterion (loss ex_args) \<noteq> None" "choose_optimizer (optimizer ex_args) \<noteq> None"
    "0 < sum_list (batch_sizes ex_training)" "0 < n_val ex_training" "0 < patience ex_args"
    "(3::nat) < nat (epochs ex_args)"
    by (simp_all add: ex_args_def ex_training_def choose_criterion_def choose_optimizer_def)
  obtain st where r: "run_epochs ex_args ex_training = Inr st"
    and len: "length (processing_times st) = 3" and es: "es_of st = (Fin 1, 2)"
    by (simp add: ex_run es_of_def)
  have n: "map_sum id (\<lambda>st. (length (processing_times st), es_of st)) (run_epochs ex_args ex_training)
     = Inr (3, Fin 1, 2)"
    by (simp add: r len es)
  from early_stopping_policy [where a = ex_args and w = ex_training]
  have "\<forall>st. run_epochs ex_args ex_training = Inr st \<longrightarrow>
      (let n = length (processing_times st) in
         n \<le> nat (epochs ex_args) \<and> (0 < epochs ex_args \<longrightarrow> 0 < n) \<and>
         es_of st = spec_es_after (val_loss ex_training) n \<and>
         (\<forall>k. 0 < k \<and> k < n \<longrightarrow> snd (spec_es_after (val_loss ex_training) k) < patience ex_args) \<and>
         (n < nat (epochs ex_args) \<longrightarrow> patience ex_args \<le> snd (spec_es_after (val_loss ex_training) n)) \<and>
         (0 < patience ex_args \<longrightarrow> snd (spec_es_after (val_loss ex_training) n) \<le> patience ex_args))"
    by blast
  with r have "let n = length (processing_times st) in
         n \<le> nat (epochs ex_args) \<and> (0 < epochs ex_args \<longrightarrow> 0 < n) \<and>
         es_of st = spec_es_after (val_loss ex_training) n \<and>
         (\<forall>k. 0 < k \<and> k < n \<longrightarrow> snd (spec_es_after (val_loss ex_training) k) < patience ex_args) \<and>
         (n < nat (epochs ex_args) \<longrightarrow> patience ex_args \<le> snd (spec_es_after (val_loss ex_training) n)) \<and>
         (0 < patience ex_args \<longrightarrow> snd (spec_es_after (val_loss ex_training) n) \<le> patience ex_args)"
    by blast
  then have p: "\<forall>k. 0 < k \<and> k < (3::nat) \<longrightarrow> snd (spec_es_after (val_loss ex_training) k) < patience ex_args"
    and q: "(3::nat) < nat (epochs ex_args) \<longrightarrow> patience ex_args \<le> snd (spec_es_after (val_loss ex_training) 3)"
    and o: "0 < patience ex_args \<longrightarrow> snd (spec_es_after (val_loss ex_training) 3) \<le> patience ex_args"
    unfolding Let_def len by blast+
  from q o c have "snd (spec_es_after (val_loss ex_training) 3) = patience ex_args"
    by linarith
  moreover from p have "snd (spec_es_after (val_loss ex_training) 2) < patience ex_args"
    by (rule allE [where x = 2]) simp
  moreover from p have "snd (spec_es_after (val_loss ex_training) 1) < patience ex_args"
    by (rule allE [where x = 1]) simp
  ultimately have "snd (spec_es_after (val_loss ex_training) 3) = patience ex_args
    \<and> snd (spec_es_after (val_loss ex_training) 2) < patience ex_args
    \<and> snd (spec_es_after (val_loss ex_training) 1) < patience ex_args"
    by blast
  with c n show ?thesis by blast
qed

lemma py_max_Max: "xs \<noteq> [] \<Longrightarrow> py_max xs = Inr (Max (set xs))"
proof (cases xs)
  case Nil
  assume "xs \<noteq> []"
  with Nil show ?thesis by simp
next
  case (Cons x ys)
  have f: "(\<lambda>m y. if m < y then y else m) = (\<lambda>m y::'a. max y m)"
    by (auto simp: max_def fun_eq_iff)
  have "foldl (\<lambda>m y. if m < y then y else m) x ys = fold max ys x"
    unfolding f by (simp add: foldl_conv_fold)
  then show ?thesis
    using Cons Max.set_eq_fold [of x ys] by simp
qed

text \<open>
  Claim C8.  When \<open>train_simulated\<close> returns a result, the epoch loop has run at least
  one epoch, the recorded durations are those of the epochs run, in order, and the
  processing time of the result is the greatest of them.
\<close>

theorem slowest_epoch_time:
  assumes "train_simulated a w = Inr r"
  shows "\<exists>st. run_epochs a w = Inr st
           \<and> 0 < length (processing_times st)
           \<and> length (processing_times st) \<le> nat (epochs a)
           \<and> processing_times st
               = map (epoch_processing_time w) [0..<length (processing_times st)]
           \<and> slowest_processing_time r = Max (set (processing_times st))"
proof -
  from assms obtain st slowest where st: "run_epochs a w = Inr st"
    and m: "py_max (processing_times st) = Inr slowest"
    and s: "slowest_processing_time r = slowest"
    by (auto simp: train_simulated_def split: option.splits sum.splits)
  from m have ne: "processing_times st \<noteq> []" by (cases "processing_times st") auto
  with m have "slowest = Max (set (processing_times st))" by (simp add: py_max_Max)
  with st s ne run_epochs_inv(1,4) [OF st] show ?thesis by auto
qed

lemma ex_train:
  "train_simulated ex_args ex_training =
     Inr \<lparr>final_loss = Fin 1, final_validation_accuracy = 50, trained_model = 3,
          correct_classifications_train = 2, final_correct_val = 1, val_size = 2,
          slowest_processing_time = 3\<rparr>"
  by code_simp

theorem slowest_epoch_time_witness:
  "map_sum id slowest_processing_time (train_simulated ex_args ex_training) = Inr 3 \<and>
   map_sum id processing_times (run_epochs ex_args ex_training) = Inr [1, 3, 1] \<and>
   Max (set [1, 3, 1 :: rat]) = 3 \<and> sum_list [1, 3, 1 :: rat] / 3 \<noteq> 3"
proof -
  note t = ex_train
  from slowest_epoch_time [OF t] have "\<exists>st. run_epochs ex_args ex_training = Inr st" by blast
  then show ?thesis by (auto simp: t ex_run)
qed

text \<open>
  Claim C5, as the code has it.  An unknown activation selector makes
  \<open>train_simulated\<close> fail with \<open>UnboundLocalError\<close> when the network is built,
  before anything is done.  With a known activation, at least one epoch and at least one
  batch, an unknown optimizer selector makes it fail with \<open>UnboundLocalError\<close> at the
  first \<open>zero_grad\<close>, before anything is done; an unknown loss selector (optimizer
  known) makes it fail with \<open>UnboundLocalError\<close> in the first batch after the gradient
  reset and the forward pass.  In no case is an optimizer step taken.
\<close>

theorem unknown_selector_failure:
  "(choose_activation (activation a) = None \<longrightarrow>
      train_simulated a w = Inl (UnboundLocalError, [])) \<and>
   (choose_activation (activation a) \<noteq> None \<and> choose_optimizer (optimizer a) = None \<and>
    0 < epochs a \<and> batch_sizes w \<noteq> [] \<longrightarrow>
      train_simulated a w = Inl (UnboundLocalError, [])) \<and>
   (choose_activation (activation a) \<noteq> None \<and> choose_optimizer (optimizer a) \<noteq> None \<and>
    choose_criterion (loss a) = None \<and> 0 < epochs a \<and> batch_sizes w \<noteq> [] \<longrightarrow>
      train_simulated a w = Inl (UnboundLocalError, [ZeroGrad, Forward]))"
proof (intro conjI impI)
  assume "choose_activation (activation a) = None"
  then show "train_simulated a w = Inl (UnboundLocalError, [])"
    by (simp add: train_simulated_def)
next
  assume h: "choose_activation (activation a) \<noteq> None \<and> choose_optimizer (optimizer a) = None \<and>
    0 < epochs a \<and> batch_sizes w \<noteq> []"
  then obtain b bs where b: "batch_sizes w = b # bs" by (cases "batch_sizes w") auto
  from h have up: "[0..<nat (epochs a)] = 0 # [1..<nat (epochs a)]"
    by (simp add: upt_conv_Cons)
  from h show "train_simulated a w = Inl (UnboundLocalError, [])"
    by (auto simp: train_simulated_def run_epochs_def up epoch_body_def b init_state_def)
next
  assume h: "choose_activation (activation a) \<noteq> None \<and> choose_optimizer (optimizer a) \<noteq> None \<and>
    choose_criterion (loss a) = None \<and> 0 < epochs a \<and> batch_sizes w \<noteq> []"
  then obtain b bs where b: "batch_sizes w = b # bs" by (cases "batch_sizes w") auto
  from h have up: "[0..<nat (epochs a)] = 0 # [1..<nat (epochs a)]"
    by (simp add: upt_conv_Cons)
  from h show "train_simulated a w = Inl (UnboundLocalError, [ZeroGrad, Forward])"
    by (auto simp: train_simulated_def run_epochs_def up epoch_body_def b init_state_def)
qed

text \<open>
  Claim C5 as stated fails: with the unknown loss selector \<open>MSE\<close> the error is
  \<open>UnboundLocalError\<close>, not \<open>ConfigurationError\<close>, and it is raised after the
  first batch has been passed through the network.
\<close>

theorem unknown_selector_counterexample:
  "train_simulated (ex_args\<lparr>loss := ''MSE''\<rparr>) ex_training
     = Inl (UnboundLocalError, [ZeroGrad, Forward]) \<and>
   train_simulated (ex_args\<lparr>loss := ''MSE''\<rparr>) ex_training \<noteq> Inl (ConfigurationError, [])"
  by code_simp

theorem unknown_selector_failure_witness:
  "choose_activation (activation (ex_args\<lparr>activation := ''TANH''\<rparr>)) = None \<and>
   train_simulated (ex_args\<lparr>activation := ''TANH''\<rparr>) ex_training
     = Inl (UnboundLocalError, []) \<and>
   choose_activation (activation (ex_args\<lparr>optimizer := ''LBFGS''\<rparr>)) \<noteq> None \<and>
   choose_optimizer (optimizer (ex_args\<lparr>optimizer := ''LBFGS''\<rparr>)) = None \<and>
   0 < epochs (ex_args\<lparr>optimizer := ''LBFGS''\<rparr>) \<and> batch_sizes ex_training \<noteq> [] \<and>
   train_simulated (ex_args\<lparr>optimizer := ''LBFGS''\<rparr>) ex_training
     = Inl (UnboundLocalError, []) \<and>
   choose_activation (activation (ex_args\<lparr>loss := ''HINGE''\<rparr>)) \<noteq> None \<and>
   choose_optimizer (optimizer (ex_args\<lparr>loss := ''HINGE''\<rparr>)) \<noteq> None \<and>
   choose_criterion (loss (ex_args\<lparr>loss := ''HINGE''\<rparr>)) = None \<and>
   0 < epochs (ex_args\<lparr>loss := ''HINGE''\<rparr>) \<and>
   train_simulated (ex_args\<lparr>loss := ''HINGE''\<rparr>) ex_training
     = Inl (UnboundLocalError, [ZeroGrad, Forward])"
proof -
  have 1: "choose_activation (activation (ex_args\<lparr>activation := ''TANH''\<rparr>)) = None"
    by (simp add: ex_args_def choose_activation_def)
  have 2: "choose_activation (activation (ex_args\<lparr>optimizer := ''LBFGS''\<rparr>)) \<noteq> None \<and>
    choose_optimizer (optimizer (ex_args\<lparr>optimizer := ''LBFGS''\<rparr>)) = None \<and>
    0 < epochs (ex_args\<lparr>optimizer := ''LBFGS''\<rparr>) \<and> batch_sizes ex_training \<noteq> []"
    by (simp add: ex_args_def ex_training_def choose_activation_def choose_optimizer_def)
  have 3: "choose_activation (activation (ex_args\<lparr>loss := ''HINGE''\<rparr>)) \<noteq> None \<and>
    choose_optimizer (optimizer (ex_args\<lparr>loss := ''HINGE''\<rparr>)) \<noteq> None \<and>
    choose_criterion (loss (ex_args\<lparr>loss := ''HINGE''\<rparr>)) = None \<and>
    0 < epochs (ex_args\<lparr>loss := ''HINGE''\<rparr>) \<and> batch_sizes ex_training \<noteq> []"
    by (simp add: ex_args_def ex_training_def choose_activation_def choose_optimizer_def
        choose_criterion_def)
  from unknown_selector_failure [of "ex_args\<lparr>activation := ''TANH''\<rparr>" ex_training] 1
  have a: "train_simulated (ex_args\<lparr>activation := ''TANH''\<rparr>) ex_training
     = Inl (UnboundLocalError, [])" by blast
  from unknown_selector_failure [of "ex_args\<lparr>optimizer := ''LBFGS''\<rparr>" ex_training] 2
  have b: "train_simulated (ex_args\<lparr>optimizer := ''LBFGS''\<rparr>) ex_training
     = Inl (UnboundLocalError, [])" by blast
  from unknown_selector_failure [of "ex_args\<lparr>loss := ''HINGE''\<rparr>" ex_training] 3
  have c: "train_simulated (ex_args\<lparr>loss := ''HINGE''\<rparr>) ex_training
     = Inl (UnboundLocalError, [ZeroGrad, Forward])" by blast
  from 1 2 3 a b c show ?thesis by blast
qed


section \<open>Selection and summary in \<open>main\<close>\<close>

lemma py_index_first:
  "v \<in> set xs \<Longrightarrow>
     \<exists>i. py_index xs v = Inr i \<and> i < length xs \<and> xs ! i = v \<and> (\<forall>j<i. xs ! j \<noteq> v)"
proof (induction xs)
  case Nil
  then show ?case by simp
next
  case (Cons x xs)
  show ?case
  proof (cases "x = v")
    case True
    then show ?thesis by simp
  next
    case False
    with Cons.prems have "v \<in> set xs" by simp
    from Cons.IH [OF this] obtain i where i: "py_index xs v = Inr i" "i < length xs"
      "xs ! i = v" "\<forall>j<i. xs ! j \<noteq> v" by blast
    have "\<forall>j<Suc i. (x # xs) ! j \<noteq> v"
      using False i(4) by (auto simp: nth_Cons split: nat.splits)
    with False i show ?thesis by simp
  qed
qed

lemma best_model_idx_first_max:
  assumes "accuracies \<noteq> []"
  shows "\<exists>i. best_model_idx accuracies = Inr i \<and> i < length accuracies
           \<and> accuracies ! i = Max (set accuracies)
           \<and> (\<forall>j<i. accuracies ! j < accuracies ! i)"
proof -
  let ?m = "Max (set accuracies)"
  from assms have m: "py_max accuracies = Inr ?m" by (rule py_max_Max)
  from assms have "?m \<in> set accuracies" by simp
  from py_index_first [OF this] obtain i where i: "py_index accuracies ?m = Inr i"
    "i < length accuracies" "accuracies ! i = ?m" "\<forall>j<i. accuracies ! j \<noteq> ?m" by blast
  have "accuracies ! j < accuracies ! i" if "j < i" for j
  proof -
    from that i(2) have "accuracies ! j \<in> set accuracies" by simp
    then have "accuracies ! j \<le> ?m" by simp
    with i(3,4) that show ?thesis by (simp add: order_less_le)
  qed
  with m i show ?thesis by (auto simp: best_model_idx_def)
qed

lemma starmap_length: "starmap f is = Inr rs \<Longrightarrow> length rs = length is"
  by (induction "is" arbitrary: rs) (auto split: sum.splits)

lemma parallel_kfold_length:
  "parallel_kfold a w = Inr (results, t) \<Longrightarrow> length results = nat (folds a)"
  by (auto simp: parallel_kfold_def parallel_kfold_run_def Let_def
      split: if_splits sum.splits dest: starmap_length)

lemma main_cross_validation:
  assumes "2 \<le> folds a" "parallel_kfold a w = Inr (results, t)"
  shows "main a w = cross_validation_summary w results t"
proof -
  from assms(2) obtain work where "parallel_kfold_run a w = (work, Inr (results, t))"
    by (cases "parallel_kfold_run a w") (simp add: parallel_kfold_def)
  with assms(1) show ?thesis by (simp add: main_def main_run_def)
qed

text \<open>
  Claim C3.  For every non-empty sequence of fold results the selector returns an index
  \<open>i\<close> of the sequence whose validation accuracy is greatest and strictly above that of
  every earlier fold (the first fold with the maximum), and the reported test accuracy is
  that of the model of fold \<open>i\<close> on the held-out test set.  With at least two folds the
  results of a successful parallel run are non-empty and \<open>main\<close> reports exactly this.
\<close>

theorem selector_first_maximum:
  "(results \<noteq> [] \<longrightarrow>
      (\<exists>i. best_model_idx (map accuracy_of results) = Inr i \<and> i < length results
         \<and> (\<forall>j < length results. accuracy_of (results ! j) \<le> accuracy_of (results ! i))
         \<and> (\<forall>j < i. accuracy_of (results ! j) < accuracy_of (results ! i))
         \<and> map_sum id best_test_accuracy (cross_validation_summary w results t)
             = Inr (test_model w (model_of (results ! i))))) \<and>
   (2 \<le> folds a \<and> parallel_kfold a w = Inr (results, t) \<longrightarrow>
      results \<noteq> [] \<and> main a w = cross_validation_summary w results t)"
proof (intro conjI impI)
  assume ne: "results \<noteq> []"
  then have "map accuracy_of results \<noteq> []" by simp
  from best_model_idx_first_max [OF this] obtain i where
    i: "best_model_idx (map accuracy_of results) = Inr i" "i < length results"
      "map accuracy_of results ! i = Max (set (map accuracy_of results))"
      "\<forall>j<i. map accuracy_of results ! j < map accuracy_of results ! i"
    by auto
  have le: "accuracy_of (results ! j) \<le> accuracy_of (results ! i)" if "j < length results" for j
  proof -
    from that have "accuracy_of (results ! j) \<in> set (map accuracy_of results)" by simp
    then have "accuracy_of (results ! j) \<le> Max (set (map accuracy_of results))"
      by (intro Max_ge) simp_all
    with i(2,3) show ?thesis by simp
  qed
  have lt: "accuracy_of (results ! j) < accuracy_of (results ! i)" if "j < i" for j
    using i(2,4) that by simp
  have "map_sum id best_test_accuracy (cross_validation_summary w results t)
             = Inr (test_model w (model_of (results ! i)))"
    using i(1,2) ne by (simp add: cross_validation_summary_def Let_def)
  with i(1,2) le lt
  show "\<exists>i. best_model_idx (map accuracy_of results) = Inr i \<and> i < length results
         \<and> (\<forall>j < length results. accuracy_of (results ! j) \<le> accuracy_of (results ! i))
         \<and> (\<forall>j < i. accuracy_of (results ! j) < accuracy_of (results ! i))
         \<and> map_sum id best_test_accuracy (cross_validation_summary w results t)
             = Inr (test_model w (model_of (results ! i)))"
    by blast
next
  assume h: "2 \<le> folds a \<and> parallel_kfold a w = Inr (results, t)"
  with parallel_kfold_length [of a w results t] have "length results = nat (folds a)" by simp
  with h show "results \<noteq> []" by auto
  from h show "main a w = cross_validation_summary w results t"
    by (simp add: main_cross_validation)
qed

lemma ex_kfold: "parallel_kfold (ex_args\<lparr>folds := 3\<rparr>) ex_cv_world = Inr (ex_results, 12)"
  by code_simp

lemma ex_summary:
  "cross_validation_summary ex_cv_world ex_results 12 = Inr (CrossValidation (260 / 3) (1 / 10) 12)"
  by code_simp

theorem selector_first_maximum_witness:
  "ex_results \<noteq> [] \<and> (2::int) \<le> folds (ex_args\<lparr>folds := 3\<rparr>) \<and>
   parallel_kfold (ex_args\<lparr>folds := 3\<rparr>) ex_cv_world = Inr (ex_results, 12) \<and>
   map accuracy_of ex_results = [4 / 5, 9 / 10, 9 / 10] \<and>
   best_model_idx (map accuracy_of ex_results) = Inr 1 \<and>
   main (ex_args\<lparr>folds := 3\<rparr>) ex_cv_world = Inr (CrossValidation (260 / 3) (1 / 10) 12) \<and>
   test_model ex_cv_world (model_of (ex_results ! 1)) = 1 / 10"
proof -
  have ne: "ex_results \<noteq> []" by (simp add: ex_results_def)
  have f: "(2::int) \<le> folds (ex_args\<lparr>folds := 3\<rparr>)" by (simp add: ex_args_def)
  note T = selector_first_maximum [of ex_results ex_cv_world 12 "ex_args\<lparr>folds := 3\<rparr>"]
  from T f ex_kfold have "main (ex_args\<lparr>folds := 3\<rparr>) ex_cv_world
      = cross_validation_summary ex_cv_world ex_results 12"
    by blast
  then have m: "main (ex_args\<lparr>folds := 3\<rparr>) ex_cv_world = Inr (CrossValidation (260 / 3) (1 / 10) 12)"
    by (simp add: ex_summary)
  have acc: "map accuracy_of ex_results = [4 / 5, 9 / 10, 9 / 10]" by (simp add: ex_results_def)
  have b: "best_model_idx (map accuracy_of ex_results) = Inr 1" by code_simp
  have t: "test_model ex_cv_world (model_of (ex_results ! 1)) = 1 / 10"
    by (simp add: ex_cv_world_def ex_results_def)
  from ne f ex_kfold acc b m t show ?thesis by blast
qed

subsection \<open>Fewer than two folds\<close>

lemma length_loader_batches:
  "0 < bs \<Longrightarrow> length (loader_batches n bs) = (n + bs - 1) div bs"
proof -
  assume bs: "0 < bs"
  have "(n + bs - 1) div bs = n div bs + (if n mod bs = 0 then 0 else 1)"
  proof (cases "n mod bs = 0")
    case True
    then obtain q where q: "n = bs * q" by auto
    have e: "bs * q + bs - 1 = bs * q + (bs - 1)" using bs by simp
    have d1: "(bs * q + (bs - 1)) div bs = q + (bs - 1) div bs"
      by (rule div_mult_self4) (use bs in simp)
    have d2: "(bs - 1) div bs = 0"
      by (rule div_less) (use bs in simp)
    have A: "(n + bs - 1) div bs = q"
      unfolding q e d1 d2 by (rule add_0_right)
    have B: "n div bs = q" using q bs by simp
    show ?thesis unfolding A B using True by simp
  next
    case False
    define r where "r = n mod bs"
    define q where "q = n div bs"
    have n: "n = bs * q + r" by (simp add: r_def q_def)
    have r: "0 < r" "r < bs" using False bs by (simp_all add: r_def)
    then have "n + bs - 1 = bs * (q + 1) + (r - 1)" by (simp add: n)
    moreover have "(bs * (q + 1) + (r - 1)) div bs = q + 1 + (r - 1) div bs"
      by (rule div_mult_self4) (use bs in simp)
    moreover have "(r - 1) div bs = 0"
      by (rule div_less) (use r in simp)
    ultimately have "(n + bs - 1) div bs = n div bs + 1" by (simp add: q_def)
    with False show ?thesis by simp
  qed
  then show ?thesis by (simp add: loader_batches_def)
qed

lemma single_batches_steps:
  "\<forall>b. fail e b = None \<Longrightarrow>
     \<exists>ev'. single_batches fail e bs ev = Inr ev'
       \<and> count_list ev' OptimizerStep = count_list ev OptimizerStep + length bs"
proof (induction bs arbitrary: ev)
  case Nil
  show ?case by simp
next
  case (Cons p bs)
  obtain b n where p: "p = (b, n)" by (cases p)
  from Cons.IH [of "ev @ [ZeroGrad, Forward, Backward, OptimizerStep]"] Cons.prems
  show ?case by (auto simp: p)
qed

lemma single_epochs_steps:
  "\<forall>e b. fail e b = None \<Longrightarrow>
     \<exists>ev'. single_epochs fail batches es ev = Inr ev'
       \<and> count_list ev' OptimizerStep
           = count_list ev OptimizerStep + length es * length batches"
proof (induction es arbitrary: ev)
  case Nil
  show ?case by simp
next
  case (Cons e es)
  from Cons.prems have "\<forall>b. fail e b = None" by simp
  with single_batches_steps [where fail = fail and e = e and bs = batches and ev = ev]
  obtain ev1 where
    1: "single_batches fail e batches ev = Inr ev1"
      "count_list ev1 OptimizerStep = count_list ev OptimizerStep + length batches"
    by blast
  from Cons.IH [of ev1] Cons.prems obtain ev2 where
    2: "single_epochs fail batches es ev1 = Inr ev2"
      "count_list ev2 OptimizerStep = count_list ev1 OptimizerStep + length es * length batches"
    by blast
  from 1 2 show ?case by simp
qed

lemma count_list_map_Net: "count_list (map Net ev) (Net x) = count_list ev x"
  by (induction ev) auto

text \<open>
  The single-split branch trains: with a learning rate that is not negative, a positive
  batch size and a network that raises nothing, it prints its summary after one optimizer
  step for every batch of every epoch.
\<close>

lemma single_split_trains:
  assumes "0 \<le> lr a" "0 < batch_size a" "\<forall>e b. batch_failure w e b = None"
  shows "\<exists>work. single_split_run a w =
            (work, Inr (SingleSplit (test_model w (single_model w))
                          (single_train_time w) (single_test_time w)))
           \<and> count_list work (Net OptimizerStep)
               = nat (epochs a) * ((n_train w + nat (batch_size a) - 1) div nat (batch_size a))"
proof -
  let ?bs = "enumerate 0 (loader_batches (n_train w) (nat (batch_size a)))"
  from single_epochs_steps [where fail = "batch_failure w" and batches = ?bs
      and es = "[0..<nat (epochs a)]" and ev = "[]"] assms(3)
  obtain ev where ev: "single_epochs (batch_failure w) ?bs [0..<nat (epochs a)] [] = Inr ev"
    "count_list ev OptimizerStep = nat (epochs a) * length ?bs"
    by auto
  from assms(2) have "length ?bs = (n_train w + nat (batch_size a) - 1) div nat (batch_size a)"
    by (simp add: length_loader_batches)
  with ev assms(1,2) show ?thesis
    by (simp add: single_split_run_def count_list_map_Net)
qed

lemma sum_list_loader_batches: "sum_list (loader_batches n bs) = n"
  using div_mult_mod_eq [of n bs] by (auto simp: loader_batches_def sum_list_replicate)

text \<open>
  Claim C4, as the code has it.  When cross-validation is requested with a fold count
  below 2, that is when \<open>parallel_kfold\<close> runs with such a count, it fails at once with
  Python's \<open>ValueError\<close>, raised by the parameter check of \<open>KFold\<close>: before the pool
  is created and before the training of any fold is submitted.  \<open>main\<close> itself never
  requests cross-validation with such a count: it handles that case separately, in its
  single-split branch, which (with a learning rate that is not negative, a positive batch
  size and a network that raises nothing) prints its summary after one optimizer step for
  every batch of every epoch, the batches covering the whole training part.
\<close>

theorem fewer_than_two_folds:
  "folds a < 2 \<Longrightarrow>
     parallel_kfold_run a w = ([], Inl ValueError) \<and>
     parallel_kfold a w = Inl ValueError \<and>
     main_run a w = single_split_run a w \<and>
     (0 \<le> lr a \<and> 0 < batch_size a \<and> (\<forall>e b. batch_failure w e b = None) \<longrightarrow>
        main a w = Inr (SingleSplit (test_model w (single_model w))
                          (single_train_time w) (single_test_time w)) \<and>
        count_list (fst (main_run a w)) (Net OptimizerStep)
          = nat (epochs a) * ((n_train w + nat (batch_size a) - 1) div nat (batch_size a)) \<and>
        sum_list (loader_batches (n_train w) (nat (batch_size a))) = n_train w)"
proof -
  assume f: "folds a < 2"
  then have m: "main_run a w = single_split_run a w" by (simp add: main_run_def)
  have "main a w = Inr (SingleSplit (test_model w (single_model w))
                          (single_train_time w) (single_test_time w)) \<and>
        count_list (fst (main_run a w)) (Net OptimizerStep)
          = nat (epochs a) * ((n_train w + nat (batch_size a) - 1) div nat (batch_size a)) \<and>
        sum_list (loader_batches (n_train w) (nat (batch_size a))) = n_train w"
    if "0 \<le> lr a \<and> 0 < batch_size a \<and> (\<forall>e b. batch_failure w e b = None)"
  proof -
    from that single_split_trains [of a w] obtain work where
      "single_split_run a w =
            (work, Inr (SingleSplit (test_model w (single_model w))
                          (single_train_time w) (single_test_time w)))"
      "count_list work (Net OptimizerStep)
               = nat (epochs a) * ((n_train w + nat (batch_size a) - 1) div nat (batch_size a))"
      by blast
    then show ?thesis by (simp add: main_def m sum_list_loader_batches)
  qed
  with f m show ?thesis
    by (simp add: parallel_kfold_run_def parallel_kfold_def)
qed

text \<open>
  Claim C4 as stated fails.  With one fold \<open>parallel_kfold\<close> fails before the pool and
  any training, but with \<open>ValueError\<close>, not with \<open>ConfigurationError\<close>; and \<open>main\<close>
  with one fold does not fail at all: it prints the single-split summary after 40
  optimizer steps.
\<close>

theorem fewer_than_two_folds_counterexample:
  "parallel_kfold_run (ex_args\<lparr>folds := 1\<rparr>) ex_cv_world = ([], Inl ValueError) \<and>
   parallel_kfold (ex_args\<lparr>folds := 1\<rparr>) ex_cv_world \<noteq> Inl ConfigurationError \<and>
   main (ex_args\<lparr>folds := 1\<rparr>) ex_cv_world = Inr (SingleSplit (7 / 10) 30 1) \<and>
   count_list (fst (main_run (ex_args\<lparr>folds := 1\<rparr>) ex_cv_world)) (Net OptimizerStep) = 40"
  by code_simp

theorem fewer_than_two_folds_witness:
  "folds (ex_args\<lparr>folds := 1\<rparr>) < 2 \<and>
   0 \<le> lr (ex_args\<lparr>folds := 1\<rparr>) \<and> 0 < batch_size (ex_args\<lparr>folds := 1\<rparr>) \<and>
   batch_failure ex_cv_world 0 0 = None \<and>
   parallel_kfold_run (ex_args\<lparr>folds := 1\<rparr>) ex_cv_world = ([], Inl ValueError) \<and>
   parallel_kfold (ex_args\<lparr>folds := 1\<rparr>) ex_cv_world = Inl ValueError \<and>
   main (ex_args\<lparr>folds := 1\<rparr>) ex_cv_world = Inr (SingleSplit (7 / 10) 30 1) \<and>
   count_list (fst (main_run (ex_args\<lparr>folds := 1\<rparr>) ex_cv_world)) (Net OptimizerStep) = 40"
proof -
  let ?a = "ex_args\<lparr>folds := 1\<rparr>"
  have h: "folds ?a < 2" by simp
  have v: "0 \<le> lr ?a \<and> 0 < batch_size ?a \<and> (\<forall>e b. batch_failure ex_cv_world e b = None)"
    by (simp add: ex_args_def ex_cv_world_def)
  note T = fewer_than_two_folds [OF h, of ex_cv_world]
  from T have k: "parallel_kfold_run ?a ex_cv_world = ([], Inl ValueError)"
    "parallel_kfold ?a ex_cv_world = Inl ValueError" by blast+
  from T v have m: "main ?a ex_cv_world = Inr (SingleSplit (test_model ex_cv_world
        (single_model ex_cv_world)) (single_train_time ex_cv_world) (single_test_time ex_cv_world))"
    and c: "count_list (fst (main_run ?a ex_cv_world)) (Net OptimizerStep)
          = nat (epochs ?a) * ((n_train ex_cv_world + nat (batch_size ?a) - 1) div nat (batch_size ?a))"
    by blast+
  from m have m': "main ?a ex_cv_world = Inr (SingleSplit (7 / 10) 30 1)"
    by (simp add: ex_cv_world_def)
  from c have c': "count_list (fst (main_run ?a ex_cv_world)) (Net OptimizerStep) = 40"
    by (simp add: ex_args_def ex_cv_world_def)
  from h v k m' c' show ?thesis by simp
qed


section \<open>Averaging in \<open>synchronize_weights\<close>\<close>

lemma same_shape_nth:
  "same_shape a b \<longleftrightarrow>
     length a = length b \<and>
     (\<forall>j<length a. fst (a ! j) = fst (b ! j) \<and> length (snd (a ! j)) = length (snd (b ! j)))"
  by (auto simp: same_shape_def list_eq_iff_nth_eq case_prod_unfold)

lemma same_shape_keys: "same_shape a b \<Longrightarrow> map fst a = map fst b"
  by (auto simp: same_shape_nth list_eq_iff_nth_eq)

lemma same_shape_sym: "same_shape a b \<Longrightarrow> same_shape b a"
  by (simp add: same_shape_def)

lemma same_shape_trans: "same_shape a b \<Longrightarrow> same_shape b c \<Longrightarrow> same_shape a c"
  by (simp add: same_shape_def)

lemma sd_add_nth:
  "same_shape g sd \<Longrightarrow> j < length g \<Longrightarrow>
     sd_add g sd ! j = (fst (g ! j), map2 (+) (snd (g ! j)) (snd (sd ! j)))"
  by (simp add: sd_add_def same_shape_nth case_prod_unfold)

lemma length_sd_add: "same_shape g sd \<Longrightarrow> length (sd_add g sd) = length g"
  by (simp add: sd_add_def same_shape_nth)

lemma same_shape_sd_add: "same_shape g sd \<Longrightarrow> same_shape (sd_add g sd) g"
  by (subst same_shape_nth) (auto simp: length_sd_add sd_add_nth, auto simp: same_shape_nth)

lemma sd_add_entry:
  "same_shape g sd \<Longrightarrow> j < length g \<Longrightarrow> i < length (snd (g ! j)) \<Longrightarrow>
     snd (sd_add g sd ! j) ! i = snd (g ! j) ! i + snd (sd ! j) ! i"
  by (simp add: sd_add_nth) (simp add: same_shape_nth)

lemma foldl_sd_add_shape:
  "\<forall>sd\<in>set sds. same_shape g sd \<Longrightarrow> same_shape (foldl sd_add g sds) g"
proof (induction sds arbitrary: g)
  case Nil
  show ?case by (simp add: same_shape_def)
next
  case (Cons sd sds)
  from Cons.prems have s: "same_shape g sd" by simp
  note s1 = same_shape_sd_add [OF s]
  have "\<forall>x\<in>set sds. same_shape (sd_add g sd) x"
    using Cons.prems s1 by (auto intro: same_shape_trans)
  from Cons.IH [OF this] s1 show ?case by (auto intro: same_shape_trans)
qed

lemma foldl_sd_add_entry:
  "\<forall>sd\<in>set sds. same_shape g sd \<Longrightarrow> j < length g \<Longrightarrow> i < length (snd (g ! j)) \<Longrightarrow>
     snd (foldl sd_add g sds ! j) ! i = snd (g ! j) ! i + (\<Sum>sd\<leftarrow>sds. snd (sd ! j) ! i)"
proof (induction sds arbitrary: g)
  case Nil
  show ?case by simp
next
  case (Cons sd sds)
  from Cons.prems have s: "same_shape g sd" by simp
  note s1 = same_shape_sd_add [OF s]
  have a: "\<forall>x\<in>set sds. same_shape (sd_add g sd) x"
    using Cons.prems s1 by (auto intro: same_shape_trans)
  have j: "j < length (sd_add g sd)" using Cons.prems s by (simp add: length_sd_add)
  have i: "i < length (snd (sd_add g sd ! j))"
    using Cons.prems s by (simp add: sd_add_nth) (simp add: same_shape_nth)
  from Cons.IH [OF a j i] sd_add_entry [OF s Cons.prems(2,3)]
  show ?case by simp
qed

lemma collect_weights_all:
  "distinct (map fst g) \<Longrightarrow> \<forall>a\<in>set ags. \<exists>sd. neural_net_model a = Some sd \<and> same_shape g sd
     \<Longrightarrow> collect_weights g ags = Inr (foldl sd_add g (map (the \<circ> neural_net_model) ags))"
proof (induction ags arbitrary: g)
  case Nil
  show ?case by simp
next
  case (Cons a ags)
  from Cons.prems(2) obtain sd where sd: "neural_net_model a = Some sd" "same_shape g sd"
    by auto
  note s1 = same_shape_sd_add [OF sd(2)]
  have d: "distinct (map fst (sd_add g sd))"
    using Cons.prems(1) same_shape_keys [OF s1] by simp
  have "\<forall>a\<in>set ags. \<exists>sd'. neural_net_model a = Some sd' \<and> same_shape (sd_add g sd) sd'"
    using Cons.prems(2) s1 by (auto intro: same_shape_trans)
  from Cons.IH [OF d this] sd accumulate_same_shape [OF Cons.prems(1) sd(2)]
  show ?case by simp
qed

lemma load_state_dict_same_shape:
  assumes "same_shape sd G" "distinct (map fst G)"
  shows "load_state_dict sd G = Inr G"
proof -
  from assms(1) have len: "length sd = length G"
    and k: "\<And>j. j < length sd \<Longrightarrow> fst (sd ! j) = fst (G ! j)"
    and l: "\<And>j. j < length sd \<Longrightarrow> length (snd (sd ! j)) = length (snd (G ! j))"
    by (simp_all add: same_shape_nth)
  have m: "map_of G (fst (G ! j)) = Some (snd (G ! j))" if "j < length G" for j
    using that assms(2) by (simp add: map_of_eq_Some_iff)
  have keys: "set (map fst sd) = set (map fst G)"
    using same_shape_keys [OF assms(1)] by simp
  have sizes: "\<forall>(k, v) \<in> set sd. map_option length (map_of G k) = Some (length v)"
  proof (rule ballI)
    fix p assume "p \<in> set sd"
    then obtain j where j: "j < length sd" "sd ! j = p" by (auto simp: in_set_conv_nth)
    with k [of j] l [of j] m [of j] len
    show "case p of (k, v) \<Rightarrow> map_option length (map_of G k) = Some (length v)"
      by (auto simp: case_prod_unfold)
  qed
  have "map (\<lambda>(k, v). (k, the (map_of G k))) sd = G"
  proof (rule nth_equalityI)
    show "length (map (\<lambda>(k, v). (k, the (map_of G k))) sd) = length G" using len by simp
  next
    fix j assume "j < length (map (\<lambda>(k, v). (k, the (map_of G k))) sd)"
    then have j: "j < length sd" by simp
    with k [of j] m [of j] len
    show "map (\<lambda>(k, v). (k, the (map_of G k))) sd ! j = G ! j"
      by (simp add: case_prod_unfold)
  qed
  with keys sizes show ?thesis by (simp add: load_state_dict_def)
qed

lemma load_all_same_shape:
  "distinct (map fst G) \<Longrightarrow> \<forall>a\<in>set ags. \<exists>sd. neural_net_model a = Some sd \<and> same_shape sd G
     \<Longrightarrow> load_all G ags = (map (\<lambda>a. a\<lparr>neural_net_model := Some G\<rparr>) ags, None)"
  by (induction ags) (auto simp: load_state_dict_same_shape)

lemma same_shape_idiv: "same_shape (map (\<lambda>(k, t). (k, tensor_idiv t n)) S) S"
  by (simp add: same_shape_def tensor_idiv_def case_prod_unfold comp_def)

text \<open>
  When every agent holds a network of the seed's shape, \<open>synchronize_weights\<close> gives
  every agent the same state dictionary, whose entries are the arithmetic means of the
  agents' entries.
\<close>

lemma sync_all_agents_mean:
  assumes "distinct (map fst seed)"
    and "\<forall>a\<in>set ags. \<exists>sd. neural_net_model a = Some sd \<and> same_shape seed sd"
  shows "\<exists>G. synchronize_weights (Some seed) ags
               = (map (\<lambda>a. a\<lparr>neural_net_model := Some G\<rparr>) ags, None)
           \<and> same_shape G seed
           \<and> (\<forall>j < length seed. \<forall>i < length (snd (seed ! j)).
                snd (G ! j) ! i
                  = (\<Sum>a\<leftarrow>ags. snd (the (neural_net_model a) ! j) ! i) / of_nat (length ags))"
proof -
  let ?z = "map (\<lambda>(k, v). (k, zeros_like v)) seed"
  let ?sds = "map (the \<circ> neural_net_model) ags"
  let ?S = "foldl sd_add ?z ?sds"
  let ?G = "map (\<lambda>(k, t). (k, tensor_idiv t (length ags))) ?S"
  have zs: "same_shape ?z seed" by (rule same_shape_zeros)
  have kz: "map fst ?z = map fst seed" by (rule same_shape_keys [OF zs])
  have dz: "distinct (map fst ?z)" unfolding kz by (rule assms(1))
  have az: "\<forall>a\<in>set ags. \<exists>sd. neural_net_model a = Some sd \<and> same_shape ?z sd"
    using assms(2) zs by (blast intro: same_shape_trans)
  then have sz: "\<forall>sd\<in>set ?sds. same_shape ?z sd" by auto
  have c: "collect_weights ?z ags = Inr ?S" by (rule collect_weights_all [OF dz az])
  then have g: "global_weights_of seed ags = Inr ?G" by (simp add: global_weights_of_def)
  have Sz: "same_shape ?S ?z" by (rule foldl_sd_add_shape [OF sz])
  have GS: "same_shape ?G ?S" by (rule same_shape_idiv)
  have Gseed: "same_shape ?G seed" using GS Sz zs by (blast intro: same_shape_trans)
  have kG: "map fst ?G = map fst seed" by (rule same_shape_keys [OF Gseed])
  have dG: "distinct (map fst ?G)" unfolding kG by (rule assms(1))
  have "\<forall>a\<in>set ags. \<exists>sd. neural_net_model a = Some sd \<and> same_shape sd ?G"
    using assms(2) Gseed by (blast intro: same_shape_trans same_shape_sym)
  from load_all_same_shape [OF dG this] g
  have sync: "synchronize_weights (Some seed) ags
               = (map (\<lambda>a. a\<lparr>neural_net_model := Some ?G\<rparr>) ags, None)"
    by (simp add: synchronize_weights_def)
  have ent: "snd (?G ! j) ! i
      = (\<Sum>a\<leftarrow>ags. snd (the (neural_net_model a) ! j) ! i) / of_nat (length ags)"
    if "j < length seed" "i < length (snd (seed ! j))" for j i
  proof -
    from that have jz: "j < length ?z" by simp
    from that have iz: "i < length (snd (?z ! j))" by (simp add: case_prod_unfold zeros_like_def)
    have z0: "snd (?z ! j) ! i = 0" using that by (simp add: case_prod_unfold zeros_like_def)
    from Sz jz have jS: "j < length ?S" by (simp add: same_shape_nth)
    from Sz jS iz have iS: "i < length (snd (?S ! j))" by (simp add: same_shape_nth)
    have "snd (?S ! j) ! i = (\<Sum>sd\<leftarrow>?sds. snd (sd ! j) ! i)"
      using foldl_sd_add_entry [OF sz jz iz] z0 by simp
    also have "\<dots> = (\<Sum>a\<leftarrow>ags. snd (the (neural_net_model a) ! j) ! i)"
      by (simp add: comp_def)
    finally show ?thesis using jS iS by (simp add: case_prod_unfold tensor_idiv_def)
  qed
  from sync Gseed ent show ?thesis by blast
qed

text \<open>
  Claim C1.  When an agent holds no network the code still divides by the number of all
  agents.  Here agents 0 and 2 hold the tensors \<open>[2, 8]\<close> and \<open>[4, 10]\<close> and agent 1
  holds no network: both networks become \<open>[2, 6]\<close>, the sums divided by 3, where the
  mean over the two agents that hold a network is \<open>[3, 9]\<close>.  A whole \<open>step\<close> on
  these agents (whose training step changes nothing) ends with the same networks.
\<close>

theorem sync_divides_by_all_agents:
  "synchronize_weights (Some [(''w'', [2, 8])])
     [ex_agent 0 (Some [(''w'', [2, 8])]) 8 10, ex_agent 1 None 0 0,
      ex_agent 2 (Some [(''w'', [4, 10])]) 18 20]
   = ([ex_agent 0 (Some [(''w'', [2, 6])]) 8 10, ex_agent 1 None 0 0,
       ex_agent 2 (Some [(''w'', [2, 6])]) 18 20], None) \<and>
   fst (step (\<lambda>ags. ags) (\<lambda>sd. Inr 90) 3
          [ex_agent 0 (Some [(''w'', [2, 8])]) 8 10, ex_agent 1 None 0 0,
           ex_agent 2 (Some [(''w'', [4, 10])]) 18 20])
   = [ex_agent 0 (Some [(''w'', [2, 6])]) 8 10, ex_agent 1 None 0 0,
      ex_agent 2 (Some [(''w'', [2, 6])]) 18 20]"
  by code_simp


section \<open>The aggregated figures\<close>

text \<open>
  Claim C6, as the code has it.  For a non-empty list of agents that have processed at
  least one example, \<open>step\<close> reports the cumulative time as the sum of the agents'
  times, the average time per node as that sum divided by the number of agents, and the
  pooled accuracy as 100 times the sum of the correct counts over the sum of the
  processed counts.  For a non-empty list of fold results, \<open>main\<close> reports the mean
  validation accuracy as 100 times the sum of the folds' accuracies over their number.
\<close>

theorem aggregation_figures:
  "(ags \<noteq> [] \<and> sum_list (map total_examples_processed ags) \<noteq> 0 \<longrightarrow>
      aggregate ags =
        Inr \<lparr>cumulative_time = sum_list (map processing_time ags),
             average_time_per_node = sum_list (map processing_time ags) / of_nat (length ags),
             total_correct = sum_list (map correct_classifications ags),
             total_processed = sum_list (map total_examples_processed ags),
             final_accuracy =
               of_int (sum_list (map correct_classifications ags)) /
               of_int (sum_list (map total_examples_processed ags)) * 100\<rparr>) \<and>
   (results \<noteq> [] \<longrightarrow>
      map_sum id average_validation_accuracy (cross_validation_summary w results t) =
        Inr (sum_list (map accuracy_of results) / of_nat (length results) * 100))"
proof (intro conjI impI)
  assume "ags \<noteq> [] \<and> sum_list (map total_examples_processed ags) \<noteq> 0"
  then show "aggregate ags =
        Inr \<lparr>cumulative_time = sum_list (map processing_time ags),
             average_time_per_node = sum_list (map processing_time ags) / of_nat (length ags),
             total_correct = sum_list (map correct_classifications ags),
             total_processed = sum_list (map total_examples_processed ags),
             final_accuracy =
               of_int (sum_list (map correct_classifications ags)) /
               of_int (sum_list (map total_examples_processed ags)) * 100\<rparr>"
    by (simp add: aggregate_def Let_def)
next
  assume ne: "results \<noteq> []"
  then have "map accuracy_of results \<noteq> []" by simp
  from best_model_idx_first_max [OF this] obtain i where
    "best_model_idx (map accuracy_of results) = Inr i" "i < length results" by auto
  with ne show "map_sum id average_validation_accuracy (cross_validation_summary w results t) =
        Inr (sum_list (map accuracy_of results) / of_nat (length results) * 100)"
    by (simp add: cross_validation_summary_def Let_def)
qed

text \<open>
  Claim C6 as stated fails: the report of \<open>step\<close> holds no mean of the agents'
  accuracies.  Two collections of agents with the means 85 and 80 get the same report.
\<close>

theorem aggregation_figures_counterexample:
  "aggregate [ex_agent 0 None 8 10, ex_agent 1 None 18 20] =
     Inr \<lparr>cumulative_time = 4, average_time_per_node = 2, total_correct = 26,
          total_processed = 30, final_accuracy = 260 / 3\<rparr> \<and>
   aggregate [ex_agent 0 None 6 10, ex_agent 1 None 20 20] =
     Inr \<lparr>cumulative_time = 4, average_time_per_node = 2, total_correct = 26,
          total_processed = 30, final_accuracy = 260 / 3\<rparr> \<and>
   spec_mean_of_accuracies [ex_agent 0 None 8 10, ex_agent 1 None 18 20] = 85 \<and>
   spec_mean_of_accuracies [ex_agent 0 None 6 10, ex_agent 1 None 20 20] = 80"
  by (simp add: aggregate_def spec_mean_of_accuracies_def ex_agent_def)

theorem aggregation_figures_witness:
  "[ex_agent 0 None 8 10, ex_agent 1 None 18 20] \<noteq> [] \<and>
   sum_list (map total_examples_processed [ex_agent 0 None 8 10, ex_agent 1 None 18 20]) \<noteq> 0 \<and>
   aggregate [ex_agent 0 None 8 10, ex_agent 1 None 18 20] =
     Inr \<lparr>cumulative_time = 4, average_time_per_node = 2, total_correct = 26,
          total_processed = 30, final_accuracy = 260 / 3\<rparr> \<and>
   ex_results \<noteq> [] \<and>
   map_sum id average_validation_accuracy (cross_validation_summary ex_cv_world ex_results 12)
     = Inr (260 / 3)"
proof -
  let ?A = "[ex_agent 0 None 8 10, ex_agent 1 None 18 20]"
  have h: "?A \<noteq> [] \<and> sum_list (map total_examples_processed ?A) \<noteq> 0"
    by (simp add: ex_agent_def)
  have ne: "ex_results \<noteq> []" by (simp add: ex_results_def)
  note T = aggregation_figures [of ?A ex_results ex_cv_world 12]
  from T h have "aggregate ?A =
        Inr \<lparr>cumulative_time = sum_list (map processing_time ?A),
             average_time_per_node = sum_list (map processing_time ?A) / of_nat (length ?A),
             total_correct = sum_list (map correct_classifications ?A),
             total_processed = sum_list (map total_examples_processed ?A),
             final_accuracy =
               of_int (sum_list (map correct_classifications ?A)) /
               of_int (sum_list (map total_examples_processed ?A)) * 100\<rparr>"
    by blast
  then have a: "aggregate ?A =
     Inr \<lparr>cumulative_time = 4, average_time_per_node = 2, total_correct = 26,
          total_processed = 30, final_accuracy = 260 / 3\<rparr>"
    by (simp add: ex_agent_def)
  from T ne have "map_sum id average_validation_accuracy
      (cross_validation_summary ex_cv_world ex_results 12)
     = Inr (sum_list (map accuracy_of ex_results) / of_nat (length ex_results) * 100)"
    by blast
  then have b: "map_sum id average_validation_accuracy
      (cross_validation_summary ex_cv_world ex_results 12) = Inr (260 / 3)"
    by (simp add: ex_results_def)
  from h ne a b show ?thesis by blast
qed

end
